theory Spec2Isabelle
  imports Main "HOL-Library.Monad_Syntax"
begin

section \<open>JavaScript values\<close>

text \<open>
  The input of \<^verbatim>\<open>statements\<close> is a parsed JSON document (\<^verbatim>\<open>index.js\<close> calls
  \<^verbatim>\<open>JSON.parse\<close>). A value read from it is one of the JSON kinds, or
  \<^verbatim>\<open>undefined\<close> when a property is missing. Numbers are the integers; an object is
  the list of its properties in enumeration order.
\<close>

datatype jsval =
    JUndefined
  | JNull
  | JBool bool
  | JNum int
  | JStr string
  | JArr "jsval list"
  | JObj "(string \<times> jsval) list"

type_synonym jsobject = "(string \<times> jsval) list"

text \<open>\<^verbatim>\<open>data[k]\<close>: the value of the property, \<^verbatim>\<open>undefined\<close> when there is none.\<close>

definition get_prop :: "jsobject \<Rightarrow> string \<Rightarrow> jsval" where
  "get_prop data k = (case map_of data k of None \<Rightarrow> JUndefined | Some v \<Rightarrow> v)"

text \<open>\<^verbatim>\<open>delete data[k]\<close> on a copy made by \<^verbatim>\<open>Object.assign({}, data)\<close>.\<close>

definition delete_prop :: "string \<Rightarrow> jsobject \<Rightarrow> jsobject" where
  "delete_prop k data = filter (\<lambda>kv. fst kv \<noteq> k) data"

text \<open>
  \<^verbatim>\<open>a === b\<close>. Primitives compare by value. Arrays and objects compare by reference;
  the two sides of every comparison the program makes come from different transactions
  of the parsed document, which share no object, so that comparison is false.
\<close>

fun strict_eq :: "jsval \<Rightarrow> jsval \<Rightarrow> bool" where
  "strict_eq JUndefined JUndefined = True"
| "strict_eq JNull JNull = True"
| "strict_eq (JBool a) (JBool b) = (a = b)"
| "strict_eq (JNum a) (JNum b) = (a = b)"
| "strict_eq (JStr a) (JStr b) = (a = b)"
| "strict_eq _ _ = False"

subsection \<open>Conversion to strings\<close>

definition digit :: "nat \<Rightarrow> char" where
  "digit n = ''0123456789abcdef'' ! n"

fun digits :: "nat \<Rightarrow> string" where
  "digits n = (if n < 10 then [digit n] else digits (n div 10) @ [digit (n mod 10)])"

declare digits.simps [simp del]

definition show_int :: "int \<Rightarrow> string" where
  "show_int i = (if i < 0 then CHR ''-'' # digits (nat (- i)) else digits (nat i))"

fun join :: "string \<Rightarrow> string list \<Rightarrow> string" where
  "join sep [] = []"
| "join sep [x] = x"
| "join sep (x # y # ys) = x @ sep @ join sep (y # ys)"

text \<open>The string a template literal \<^verbatim>\<open>`${v}`\<close> substitutes for a value.\<close>

fun toString :: "jsval \<Rightarrow> string" where
  "toString JUndefined = ''undefined''"
| "toString JNull = ''null''"
| "toString (JBool b) = (if b then ''true'' else ''false'')"
| "toString (JNum i) = show_int i"
| "toString (JStr s) = s"
| "toString (JArr xs) =
     join '','' (map (\<lambda>x. if x = JUndefined \<or> x = JNull then [] else toString x) xs)"
| "toString (JObj kvs) = ''[object Object]''"

text \<open>
  \<^verbatim>\<open>JSON.stringify\<close>. A string is quoted, with the quote, the backslash and the
  control characters escaped; bytes from 0x80 on (the UTF-8 encoding of other
  characters) pass unchanged.
\<close>

definition escape_char :: "char \<Rightarrow> string" where
  "escape_char c =
     (if c = CHR 0x22 then [CHR 0x5C, CHR 0x22]
      else if c = CHR 0x5C then [CHR 0x5C, CHR 0x5C]
      else if c = CHR 0x08 then [CHR 0x5C, CHR ''b'']
      else if c = CHR 0x0C then [CHR 0x5C, CHR ''f'']
      else if c = CHR 0x0A then [CHR 0x5C, CHR ''n'']
      else if c = CHR 0x0D then [CHR 0x5C, CHR ''r'']
      else if c = CHR 0x09 then [CHR 0x5C, CHR ''t'']
      else if (of_char c :: nat) < 32
        then [CHR 0x5C, CHR ''u'', CHR ''0'', CHR ''0'',
              digit (of_char c div 16), digit (of_char c mod 16)]
      else [c])"

definition quote :: "string \<Rightarrow> string" where
  "quote s = CHR 0x22 # concat (map escape_char s) @ [CHR 0x22]"

text \<open>
  An \<^verbatim>\<open>undefined\<close> array element is written \<^verbatim>\<open>null\<close>; an object property whose
  value is \<^verbatim>\<open>undefined\<close> is left out. The program only serialises arrays, so the
  first equation is the array-element case.
\<close>

fun stringify :: "jsval \<Rightarrow> string" where
  "stringify JUndefined = ''null''"
| "stringify JNull = ''null''"
| "stringify (JBool b) = (if b then ''true'' else ''false'')"
| "stringify (JNum i) = show_int i"
| "stringify (JStr s) = quote s"
| "stringify (JArr xs) = ''['' @ join '','' (map stringify xs) @ '']''"
| "stringify (JObj kvs) =
     ''{'' @ join '',''
        (map (\<lambda>kv. quote (fst kv) @ '':'' @ stringify (snd kv))
           (filter (\<lambda>kv. snd kv \<noteq> JUndefined) kvs)) @ ''}''"

section \<open>The hash of the xxhash package\<close>

text \<open>
  \<^verbatim>\<open>XXHash.hash(buffer, seed)\<close> of the \<^verbatim>\<open>xxhash\<close> package is XXH32, which is not
  code of this repository. It is written out here, on 32-bit values as naturals below
  \<open>2^32\<close>, so that identifiers can be computed for concrete documents; the model of
  the program takes the hash from its environment and the general theorems hold for any
  hash.
\<close>

definition u32 :: "nat \<Rightarrow> nat" where
  "u32 x = x mod 4294967296"

definition rotl32 :: "nat \<Rightarrow> nat \<Rightarrow> nat" where
  "rotl32 x r = u32 (x * 2 ^ r) + x div 2 ^ (32 - r)"

definition PRIME32_1 :: nat where "PRIME32_1 = 2654435761"
definition PRIME32_2 :: nat where "PRIME32_2 = 2246822519"
definition PRIME32_3 :: nat where "PRIME32_3 = 3266489917"
definition PRIME32_4 :: nat where "PRIME32_4 = 668265263"
definition PRIME32_5 :: nat where "PRIME32_5 = 374761393"

fun read32le :: "string \<Rightarrow> nat" where
  "read32le (a # b # c # d # rest) =
     of_char a + 256 * of_char b + 65536 * of_char c + 16777216 * of_char d"
| "read32le _ = 0"

definition xxh_round :: "nat \<Rightarrow> nat \<Rightarrow> nat" where
  "xxh_round acc input = u32 (rotl32 (u32 (acc + input * PRIME32_2)) 13 * PRIME32_1)"

fun xxh_stripes :: "nat \<times> nat \<times> nat \<times> nat \<Rightarrow> string \<Rightarrow> (nat \<times> nat \<times> nat \<times> nat) \<times> string" where
  "xxh_stripes (v1, v2, v3, v4) bs =
     (if 16 \<le> length bs
      then xxh_stripes
             (xxh_round v1 (read32le bs), xxh_round v2 (read32le (drop 4 bs)),
              xxh_round v3 (read32le (drop 8 bs)), xxh_round v4 (read32le (drop 12 bs)))
             (drop 16 bs)
      else ((v1, v2, v3, v4), bs))"

fun xxh_words :: "nat \<Rightarrow> string \<Rightarrow> nat \<times> string" where
  "xxh_words h bs =
     (if 4 \<le> length bs
      then xxh_words (u32 (rotl32 (u32 (h + read32le bs * PRIME32_3)) 17 * PRIME32_4)) (drop 4 bs)
      else (h, bs))"

fun xxh_bytes :: "nat \<Rightarrow> string \<Rightarrow> nat" where
  "xxh_bytes h [] = h"
| "xxh_bytes h (b # bs) =
     xxh_bytes (u32 (rotl32 (u32 (h + of_char b * PRIME32_5)) 11 * PRIME32_1)) bs"

definition xxh_avalanche :: "nat \<Rightarrow> nat" where
  "xxh_avalanche h0 =
     (let h1 = u32 (xor h0 (h0 div 2 ^ 15) * PRIME32_2);
          h2 = u32 (xor h1 (h1 div 2 ^ 13) * PRIME32_3)
      in xor h2 (h2 div 2 ^ 16))"

definition xxh32 :: "string \<Rightarrow> nat \<Rightarrow> nat" where
  "xxh32 bs seed =
     (let (h0, rest) =
            (if 16 \<le> length bs
             then (case xxh_stripes (u32 (seed + PRIME32_1 + PRIME32_2), u32 (seed + PRIME32_2),
                                      u32 seed, u32 (seed + 4294967296 - PRIME32_1)) bs of
                     ((v1, v2, v3, v4), rest) \<Rightarrow>
                       (u32 (rotl32 v1 1 + rotl32 v2 7 + rotl32 v3 12 + rotl32 v4 18), rest))
             else (u32 (seed + PRIME32_5), bs));
          (h1, tail) = xxh_words (u32 (h0 + length bs)) rest
      in xxh_avalanche (xxh_bytes h1 tail))"

section \<open>The environment\<close>

text \<open>
  What the program takes from outside the repository: the hash of the \<^verbatim>\<open>xxhash\<close>
  package, \<^verbatim>\<open>uuidv4\<close> and the clock. \<^verbatim>\<open>uuidv4\<close> and the clock are read once for
  each closing statement; the argument is the number of closing statements made before.
\<close>

record env =
  XXHash_hash :: "string \<Rightarrow> nat \<Rightarrow> nat"
  uuidv4 :: "nat \<Rightarrow> string"
  today :: "nat \<Rightarrow> string"

text \<open>\<^verbatim>\<open>statementID(data)\<close>; \<^verbatim>\<open>0xCAFEBABE\<close> is the seed.\<close>

definition statementID_hash :: "env \<Rightarrow> jsval \<Rightarrow> string" where
  "statementID_hash e data =
     ''openownership-indonesia-'' @ digits (XXHash_hash e (stringify data) 0xCAFEBABE)"

text \<open>
  An environment with that hash, one sequence of version-4 UUIDs and one date.
\<close>

definition reference_env :: env where
  "reference_env =
     \<lparr>XXHash_hash = xxh32,
      uuidv4 = (\<lambda>k. ''1b9d6bcd-bbfd-4b2d-9b5d-ab8dfbbd4bed'' @ replicate k (CHR ''0'')),
      today = (\<lambda>k. ''2020-06-01'')\<rparr>"

section \<open>Statements\<close>

datatype statementType = EntityStatement | PersonStatement | OwnershipOrControlStatement

record bods_identifier =
  scheme :: string
  schemeName :: jsval
  idval :: jsval

text \<open>
  A statement object. A property an object does not have is \<open>None\<close>
  (\<^verbatim>\<open>undefined\<close> in the source): entity and person statements have
  \<^verbatim>\<open>identifiers\<close>, ownership statements have \<^verbatim>\<open>subject\<close>, \<^verbatim>\<open>interestedParty\<close>
  and \<^verbatim>\<open>interests\<close>, and \<^verbatim>\<open>replacesStatements\<close> is there once it has been
  assigned. \<open>subject\<close> is \<^verbatim>\<open>subject.describedByEntityStatement\<close> and
  \<open>interestedParty\<close> is \<^verbatim>\<open>interestedParty.describedByPersonStatement\<close>.
  The \<^verbatim>\<open>interests\<close> array holds references to interest objects, which live in a store
  (a list indexed by address), because a closing statement shares them with the statement
  it copies. The properties the reconciliation never reads (names, addresses, source,
  publication details and the constant ones) are left out.
\<close>

record interest =
  details :: jsval
  endDate :: "string option"

type_synonym store = "interest list"

record statement =
  statementID :: string
  statementType :: statementType
  identifiers :: "bods_identifier list option"
  subject :: "string option"
  interestedParty :: "string option"
  interests :: "nat list option"
  replacesStatements :: "string list option"

subsection \<open>Mapping\<close>

definition companyIdentifier :: "jsobject \<Rightarrow> bods_identifier" where
  "companyIdentifier data =
     \<lparr>scheme = ''ID-KHH'', schemeName = JStr ''Ministry of Justice & Human Rights'',
      idval = get_prop data ''nama_korporasi''\<rparr>"

definition mapCompanyStatement :: "env \<Rightarrow> jsobject \<Rightarrow> jsval \<Rightarrow> statement" where
  "mapCompanyStatement e data companyLocation =
     \<lparr>statementID = statementID_hash e (JArr [JObj data, companyLocation]),
      statementType = EntityStatement,
      identifiers = Some [companyIdentifier data],
      subject = None, interestedParty = None, interests = None,
      replacesStatements = None\<rparr>"

text \<open>
  \<open>None\<close> is the \<^verbatim>\<open>TypeError\<close> of \<^verbatim>\<open>data['negara'].trim()\<close> when the owner is
  foreign and \<^verbatim>\<open>negara\<close> is not a string. The country code only reaches properties
  that are left out here.
\<close>

definition mapPersonStatement :: "env \<Rightarrow> jsobject \<Rightarrow> jsobject \<Rightarrow> statement option" where
  "mapPersonStatement e data sourceData =
     (if get_prop data ''kewarganegaraan'' = JStr ''WNA''
         \<and> (case get_prop data ''negara'' of JStr n \<Rightarrow> False | _ \<Rightarrow> True)
      then None
      else Some
        \<lparr>statementID = statementID_hash e (JArr [JObj data, JObj sourceData]),
         statementType = PersonStatement,
         identifiers = Some
           [\<lparr>scheme = ''ID-DJP'', schemeName = JStr ''Director General of Taxes'',
             idval = get_prop data ''npwp''\<rparr>,
            \<lparr>scheme = ''MISC-ID-'' @ toString (get_prop data ''jenis_identitas''),
             schemeName = get_prop data ''jenis_identitas'',
             idval = get_prop data ''nomor_identitas''\<rparr>],
         subject = None, interestedParty = None, interests = None,
         replacesStatements = None\<rparr>)"

text \<open>
  The ownership statement gets a fresh interest object, allocated at the end of the
  store; the new store is returned with the statement.
\<close>

definition mapOwnershipOrControlStatement ::
  "env \<Rightarrow> statement \<Rightarrow> statement \<Rightarrow> jsobject \<Rightarrow> jsobject \<Rightarrow> store \<Rightarrow> statement \<times> store" where
  "mapOwnershipOrControlStatement e companyStatement personStatement data sourceData h =
     (\<lparr>statementID = statementID_hash e
          (JArr [JStr (statementID companyStatement), JStr (statementID personStatement),
                 JObj data, JObj sourceData]),
       statementType = OwnershipOrControlStatement,
       identifiers = None,
       subject = Some (statementID companyStatement),
       interestedParty = Some (statementID personStatement),
       interests = Some [length h],
       replacesStatements = None\<rparr>,
      h @ [\<lparr>details = get_prop data ''hubungan_bo'', endDate = None\<rparr>])"

subsection \<open>Matching\<close>

text \<open>
  \<open>None\<close> is a \<^verbatim>\<open>TypeError\<close>: \<^verbatim>\<open>identifiers\<close> read from \<^verbatim>\<open>undefined\<close>, or
  \<^verbatim>\<open>some\<close> called on \<^verbatim>\<open>undefined\<close>. The old statement is the result of a
  \<^verbatim>\<open>find\<close>, which is \<^verbatim>\<open>undefined\<close> (\<open>None\<close>) when nothing was found. The callback
  of the outer \<^verbatim>\<open>some\<close> runs only when the new statement has an identifier.
\<close>

definition matchingIdentifiers :: "statement \<Rightarrow> statement option \<Rightarrow> bool option" where
  "matchingIdentifiers newStatement oldStatement =
     (case identifiers newStatement of
        None \<Rightarrow> None
      | Some [] \<Rightarrow> Some False
      | Some ids \<Rightarrow>
          (case oldStatement of
             None \<Rightarrow> None
           | Some old \<Rightarrow>
               (case identifiers old of
                  None \<Rightarrow> None
                | Some oldIds \<Rightarrow>
                    Some (list_ex (\<lambda>i. list_ex (\<lambda>oldId.
                       scheme oldId = scheme i \<and> strict_eq (idval oldId) (idval i)) oldIds)
                       ids))))"

text \<open>\<^verbatim>\<open>filter\<close> with a callback that may throw: the first throw ends the call.\<close>

fun filter_throwing :: "('a \<Rightarrow> bool option) \<Rightarrow> 'a list \<Rightarrow> 'a list option" where
  "filter_throwing p [] = Some []"
| "filter_throwing p (x # xs) =
     (case p x of
        None \<Rightarrow> None
      | Some b \<Rightarrow>
          (case filter_throwing p xs of
             None \<Rightarrow> None
           | Some ys \<Rightarrow> Some (if b then x # ys else ys)))"

definition replacedStatements :: "statement \<Rightarrow> statement list \<Rightarrow> string list option" where
  "replacedStatements newStatement oldStatements =
     map_option (map statementID)
       (filter_throwing (\<lambda>oldStatement.
          if statementType oldStatement = statementType newStatement
          then matchingIdentifiers newStatement (Some oldStatement)
          else Some False) oldStatements)"

definition replacedOwnershipStatements ::
  "statement \<Rightarrow> statement \<Rightarrow> statement \<Rightarrow> statement list \<Rightarrow> string list option" where
  "replacedOwnershipStatements newStatement newInterestedParty newSubject oldStatements =
     map_option (map statementID)
       (filter_throwing (\<lambda>s.
          if statementType s = statementType newStatement
          then (case interestedParty s of
                  None \<Rightarrow> None
                | Some personRef \<Rightarrow>
                   (case subject s of
                      None \<Rightarrow> None
                    | Some entityRef \<Rightarrow>
                       (case matchingIdentifiers newInterestedParty
                               (find (\<lambda>sp. statementID sp = personRef) oldStatements) of
                          None \<Rightarrow> None
                        | Some False \<Rightarrow> Some False
                        | Some True \<Rightarrow>
                            matchingIdentifiers newSubject
                              (find (\<lambda>sp. statementID sp = entityRef) oldStatements))))
          else Some False) oldStatements)"

section \<open>Reconciliation\<close>

text \<open>
  One transaction of the input: \<open>props\<close> are the properties of the transaction
  object other than \<^verbatim>\<open>data_bo\<close>, \<open>data_bo\<close> is the array of its owner records.
  The document gives \<^verbatim>\<open>data.kedudukan\<close> and \<^verbatim>\<open>data.data_transaksi\<close>.
\<close>

record transaction =
  props :: jsobject
  data_bo :: "jsobject list"

record document =
  kedudukan :: jsval
  data_transaksi :: "transaction list"

text \<open>
  The variables the callback of \<^verbatim>\<open>flatMap\<close> works on while it derives the
  candidates of one transaction, and the store.
\<close>

record work =
  seenStatementIds :: "string set"
  transactionStatements :: "statement list"
  newStatements :: "statement list"
  heap :: store

text \<open>
  The block the source repeats for the company, each person and each ownership
  statement: the candidate is pushed to \<^verbatim>\<open>transactionStatements\<close>; when its
  identifier has not been seen, the identifier is added to the set, the candidate gets
  its \<^verbatim>\<open>replacesStatements\<close> and is pushed to \<^verbatim>\<open>newStatements\<close> too. \<open>replaced\<close> is
  the result of the replacement computation, which the source runs (and which can
  throw) only in that case. The candidate is returned as later code sees it.
\<close>

definition push_candidate ::
  "statement \<Rightarrow> string list option \<Rightarrow> work \<Rightarrow> (statement \<times> work) option" where
  "push_candidate s replaced w =
     (if statementID s \<notin> seenStatementIds w
      then (case replaced of
              None \<Rightarrow> None
            | Some r \<Rightarrow>
                Some (s\<lparr>replacesStatements := Some r\<rparr>,
                      w\<lparr>seenStatementIds := insert (statementID s) (seenStatementIds w),
                        transactionStatements :=
                          transactionStatements w @ [s\<lparr>replacesStatements := Some r\<rparr>],
                        newStatements :=
                          newStatements w @ [s\<lparr>replacesStatements := Some r\<rparr>]\<rparr>))
      else Some (s, w\<lparr>transactionStatements := transactionStatements w @ [s]\<rparr>))"

text \<open>The callback of \<^verbatim>\<open>transaction['data_bo'].forEach\<close>.\<close>

definition owner_callback ::
  "env \<Rightarrow> jsobject \<Rightarrow> statement \<Rightarrow> statement list \<Rightarrow> work \<Rightarrow> jsobject \<Rightarrow> work option" where
  "owner_callback e sourceData companyStatement prevTransactionStatements w bo_datum =
     (case mapPersonStatement e (delete_prop ''hubungan_bo'' bo_datum) sourceData of
        None \<Rightarrow> None
      | Some p \<Rightarrow>
         (case push_candidate p (replacedStatements p prevTransactionStatements) w of
            None \<Rightarrow> None
          | Some (personStatement, w1) \<Rightarrow>
             (case mapOwnershipOrControlStatement e companyStatement personStatement
                     bo_datum sourceData (heap w1) of
                (ownership, h) \<Rightarrow>
                  map_option snd
                    (push_candidate ownership
                       (replacedOwnershipStatements ownership personStatement
                          companyStatement prevTransactionStatements)
                       (w1\<lparr>heap := h\<rparr>)))))"

fun forEach_owner ::
  "env \<Rightarrow> jsobject \<Rightarrow> statement \<Rightarrow> statement list \<Rightarrow> jsobject list \<Rightarrow> work \<Rightarrow> work option" where
  "forEach_owner e sourceData companyStatement prev [] w = Some w"
| "forEach_owner e sourceData companyStatement prev (bo_datum # rest) w =
     (case owner_callback e sourceData companyStatement prev w bo_datum of
        None \<Rightarrow> None
      | Some w' \<Rightarrow> forEach_owner e sourceData companyStatement prev rest w')"

subsection \<open>Closing ended ownerships\<close>

text \<open>The condition of the closure pass on a statement of the previous transaction.\<close>

definition not_covered :: "statement list \<Rightarrow> statement \<Rightarrow> bool" where
  "not_covered transactionStmts ps =
     (find (\<lambda>s. statementID s = statementID ps) transactionStmts = None
      \<and> find (\<lambda>s. case replacesStatements s of
                    None \<Rightarrow> False
                  | Some r \<Rightarrow> statementID ps \<in> set r) transactionStmts = None)"

text \<open>
  \<^verbatim>\<open>Object.assign({}, ps)\<close> copies the properties of \<open>ps\<close>, so the copy holds the
  same \<^verbatim>\<open>interests\<close> array and the same interest objects: the assignment to
  \<^verbatim>\<open>endingStatement.interests[0].endDate\<close> is an update of the store at the address
  \<open>ps\<close> holds. It is a \<^verbatim>\<open>TypeError\<close> when there is no \<^verbatim>\<open>interests\<close> or the array is
  empty. \<open>k\<close> counts the closing statements made so far.
\<close>

definition close_statement ::
  "env \<Rightarrow> statement \<Rightarrow> store \<times> nat \<Rightarrow> (statement \<times> store \<times> nat) option" where
  "close_statement e ps hk =
     (case hk of (h, k) \<Rightarrow>
        (case interests ps of
           None \<Rightarrow> None
         | Some [] \<Rightarrow> None
         | Some (a # _) \<Rightarrow>
             Some (ps\<lparr>statementID := uuidv4 e k,
                      replacesStatements := Some [statementID ps]\<rparr>,
                   h[a := (h ! a)\<lparr>endDate := Some (today e k)\<rparr>],
                   Suc k)))"

fun closure_pass ::
  "env \<Rightarrow> statement list \<Rightarrow> statement list \<Rightarrow> statement list \<times> store \<times> nat
     \<Rightarrow> (statement list \<times> store \<times> nat) option" where
  "closure_pass e transactionStmts [] acc = Some acc"
| "closure_pass e transactionStmts (ps # rest) (new, h, k) =
     (if not_covered transactionStmts ps
      then (case close_statement e ps (h, k) of
              None \<Rightarrow> None
            | Some (endingStatement, h', k') \<Rightarrow>
                closure_pass e transactionStmts rest (new @ [endingStatement], h', k'))
      else closure_pass e transactionStmts rest (new, h, k))"

subsection \<open>The fold over the transactions\<close>

text \<open>What is carried from one transaction to the next.\<close>

record state =
  seen :: "string set"
  prevTransactionStatements :: "statement list"
  objects :: store
  closings :: nat

definition sourceData_of :: "transaction \<Rightarrow> jsobject" where
  "sourceData_of t =
     delete_prop ''jenis_transaksi''
       (delete_prop ''nama_korporasi'' (delete_prop ''data_bo'' (props t)))"

text \<open>
  The first part of the callback of \<^verbatim>\<open>flatMap\<close>: the company and the owners of the
  transaction. The result holds \<^verbatim>\<open>transactionStatements\<close> and \<^verbatim>\<open>newStatements\<close> as
  they are before the closure pass.
\<close>

definition candidates :: "env \<Rightarrow> jsval \<Rightarrow> state \<Rightarrow> transaction \<Rightarrow> work option" where
  "candidates e companyLocation st t =
     (let sourceData = sourceData_of t;
          companyData = [(''nama_korporasi'', get_prop (props t) ''nama_korporasi'')];
          c = mapCompanyStatement e companyData companyLocation
      in case push_candidate c (replacedStatements c (prevTransactionStatements st))
                \<lparr>seenStatementIds = seen st, transactionStatements = [],
                 newStatements = [], heap = objects st\<rparr> of
           None \<Rightarrow> None
         | Some (companyStatement, w) \<Rightarrow>
             forEach_owner e sourceData companyStatement (prevTransactionStatements st)
               (data_bo t) w)"

text \<open>
  The callback of \<^verbatim>\<open>flatMap\<close>: the new statements of the transaction, and the state
  after it.
\<close>

definition transaction_step ::
  "env \<Rightarrow> jsval \<Rightarrow> state \<Rightarrow> transaction \<Rightarrow> (statement list \<times> state) option" where
  "transaction_step e companyLocation st t =
     (case candidates e companyLocation st t of
        None \<Rightarrow> None
      | Some w \<Rightarrow>
         (case closure_pass e (transactionStatements w)
                 (filter (\<lambda>ps. statementType ps = OwnershipOrControlStatement)
                    (prevTransactionStatements st))
                 (newStatements w, heap w, closings st) of
            None \<Rightarrow> None
          | Some (new, h, k) \<Rightarrow>
              Some (new, \<lparr>seen = seenStatementIds w,
                          prevTransactionStatements = transactionStatements w,
                          objects = h, closings = k\<rparr>)))"

text \<open>
  The transactions in order: for each, what it returns to \<^verbatim>\<open>flatMap\<close> and the state
  it leaves.
\<close>

fun run ::
  "env \<Rightarrow> jsval \<Rightarrow> state \<Rightarrow> transaction list \<Rightarrow> (statement list \<times> state) list option" where
  "run e companyLocation st [] = Some []"
| "run e companyLocation st (t # ts) =
     (case transaction_step e companyLocation st t of
        None \<Rightarrow> None
      | Some (new, st') \<Rightarrow>
         (case run e companyLocation st' ts of
            None \<Rightarrow> None
          | Some rest \<Rightarrow> Some ((new, st') # rest)))"

definition initial :: state where
  "initial = \<lparr>seen = {}, prevTransactionStatements = [], objects = [], closings = 0\<rparr>"

text \<open>
  \<^verbatim>\<open>statements(data)\<close>: the statements returned, in order, and the store they point
  into when the function returns. \<open>None\<close> is a run ended by a \<^verbatim>\<open>TypeError\<close>.
\<close>

definition statements :: "env \<Rightarrow> document \<Rightarrow> (statement list \<times> store) option" where
  "statements e data =
     (case run e (kedudukan data) initial (data_transaksi data) of
        None \<Rightarrow> None
      | Some steps \<Rightarrow>
          Some (concat (map fst steps),
                if steps = [] then [] else objects (snd (last steps))))"

text \<open>The \<^verbatim>\<open>interests\<close> of a statement as the output shows them.\<close>

definition interests_in :: "store \<Rightarrow> statement \<Rightarrow> interest list option" where
  "interests_in h s = map_option (map (\<lambda>a. h ! a)) (interests s)"

section \<open>The matching the specification describes\<close>

text \<open>
  Attribute-identifier matching as the specification words it: two statements match
  when some \<open>(scheme, id)\<close> pair of the one is a pair of the other; a statement
  without identifiers matches nothing. The relational match of an ownership statement
  of the previous transaction resolves both of its references in the previous
  statements and asks for a match on each side.
\<close>

definition identifiers_of :: "statement \<Rightarrow> bods_identifier list" where
  "identifiers_of s = (case identifiers s of None \<Rightarrow> [] | Some ids \<Rightarrow> ids)"

definition matches :: "statement \<Rightarrow> statement \<Rightarrow> bool" where
  "matches a b =
     (\<exists>i \<in> set (identifiers_of a). \<exists>j \<in> set (identifiers_of b).
        scheme j = scheme i \<and> strict_eq (idval j) (idval i))"

definition resolve :: "statement list \<Rightarrow> string option \<Rightarrow> statement option" where
  "resolve previousStatements ref =
     (case ref of None \<Rightarrow> None
      | Some i \<Rightarrow> find (\<lambda>sp. statementID sp = i) previousStatements)"

definition relational_match ::
  "statement \<Rightarrow> statement \<Rightarrow> statement list \<Rightarrow> statement \<Rightarrow> bool" where
  "relational_match newInterestedParty newSubject previousStatements s =
     (statementType s = OwnershipOrControlStatement
      \<and> (\<exists>p. resolve previousStatements (interestedParty s) = Some p
               \<and> matches newInterestedParty p)
      \<and> (\<exists>c. resolve previousStatements (subject s) = Some c \<and> matches newSubject c))"

section \<open>Derived notions used in the proofs\<close>

text \<open>
  The identifiers of the candidates of a transaction, as the mapping functions compute
  them from the company statement's identifier, the owner record and the source data.
\<close>

definition personID :: "env \<Rightarrow> jsobject \<Rightarrow> jsobject \<Rightarrow> string" where
  "personID e sourceData bo_datum =
     statementID_hash e (JArr [JObj (delete_prop ''hubungan_bo'' bo_datum), JObj sourceData])"

definition ownershipID :: "env \<Rightarrow> jsobject \<Rightarrow> string \<Rightarrow> jsobject \<Rightarrow> string" where
  "ownershipID e sourceData companyID bo_datum =
     statementID_hash e
       (JArr [JStr companyID, JStr (personID e sourceData bo_datum), JObj bo_datum,
              JObj sourceData])"

definition companyID :: "env \<Rightarrow> jsval \<Rightarrow> transaction \<Rightarrow> string" where
  "companyID e companyLocation t =
     statementID_hash e
       (JArr [JObj [(''nama_korporasi'', get_prop (props t) ''nama_korporasi'')],
              companyLocation])"

text \<open>
  The closing statement made from a statement of the previous transaction when \<open>k\<close>
  closing statements have been made before, and the statements of the previous
  transaction the closure pass closes.
\<close>

definition closing_of :: "env \<Rightarrow> nat \<times> statement \<Rightarrow> statement" where
  "closing_of e kp =
     (snd kp)\<lparr>statementID := uuidv4 e (fst kp),
              replacesStatements := Some [statementID (snd kp)]\<rparr>"

definition ended :: "statement list \<Rightarrow> statement list \<Rightarrow> statement list" where
  "ended transactionStmts prev =
     filter (not_covered transactionStmts)
       (filter (\<lambda>ps. statementType ps = OwnershipOrControlStatement) prev)"

text \<open>
  The invariant of the candidate loop, for the identifiers \<open>seen0\<close> seen before the
  transaction: the set holds them and the identifiers of the candidates so far; the new
  statements are the candidates that got \<^verbatim>\<open>replacesStatements\<close>; a candidate got it
  exactly when its identifier was neither in \<open>seen0\<close> nor on an earlier candidate; and what
  it replaces are statements of the previous transaction.
\<close>

definition work_inv :: "string set \<Rightarrow> statement list \<Rightarrow> work \<Rightarrow> bool" where
  "work_inv seen0 prev w \<longleftrightarrow>
     seenStatementIds w = seen0 \<union> statementID ` set (transactionStatements w)
     \<and> newStatements w =
         filter (\<lambda>s. replacesStatements s \<noteq> None) (transactionStatements w)
     \<and> (\<forall>j < length (transactionStatements w).
           (replacesStatements (transactionStatements w ! j) \<noteq> None)
           = (statementID (transactionStatements w ! j)
                \<notin> seen0 \<union> statementID ` set (take j (transactionStatements w))))
     \<and> (\<forall>s \<in> set (transactionStatements w). \<forall>r. replacesStatements s = Some r \<longrightarrow>
           set r \<subseteq> statementID ` set prev)"



section \<open>Examples\<close>

text \<open>
  Small inputs on which the program is evaluated below: the steps of the program on a
  document in the reference environment, four documents, and some statements.
\<close>

definition reference_run :: "document \<Rightarrow> (statement list \<times> state) list" where
  "reference_run data = the (run reference_env (kedudukan data) initial (data_transaksi data))"

text \<open>The owner of the first transaction is missing from the second.\<close>

definition owner_removed :: document where
  "owner_removed =
     \<lparr>kedudukan = JStr ''Jakarta'',
      data_transaksi =
        [\<lparr>props = [(''nama_korporasi'', JStr ''PT X''), (''nomor_transaksi'', JStr ''1'')],
           data_bo = [[(''nama_lengkap'', JStr ''A''), (''npwp'', JStr ''1''), (''hubungan_bo'',
             JStr ''x'')]]\<rparr>,
         \<lparr>props = [(''nama_korporasi'', JStr ''PT X''), (''nomor_transaksi'', JStr ''2'')],
           data_bo = []\<rparr>]\<rparr>"

text \<open>The second transaction differs from the first in its number only.\<close>

definition transaction_renumbered :: document where
  "transaction_renumbered =
     \<lparr>kedudukan = JStr ''Jakarta'',
      data_transaksi =
        [\<lparr>props = [(''nama_korporasi'', JStr ''PT X''), (''nomor_transaksi'', JStr ''1'')],
           data_bo = [[(''nama_lengkap'', JStr ''A''), (''npwp'', JStr ''1''), (''hubungan_bo'',
             JStr ''x'')]]\<rparr>,
         \<lparr>props = [(''nama_korporasi'', JStr ''PT X''), (''nomor_transaksi'', JStr ''2'')],
           data_bo = [[(''nama_lengkap'', JStr ''A''), (''npwp'', JStr ''1''), (''hubungan_bo'',
             JStr ''x'')]]\<rparr>]\<rparr>"

text \<open>
  The second transaction repeats the first; only \<^verbatim>\<open>jenis_transaksi\<close>, which is
  not part of the source data, is new.
\<close>

definition transaction_repeated :: document where
  "transaction_repeated =
     \<lparr>kedudukan = JStr ''Jakarta'',
      data_transaksi =
        [\<lparr>props = [(''nama_korporasi'', JStr ''PT X''), (''nomor_transaksi'', JStr ''1'')],
           data_bo = [[(''nama_lengkap'', JStr ''A''), (''npwp'', JStr ''1''), (''hubungan_bo'',
             JStr ''x'')]]\<rparr>,
         \<lparr>props = [(''nama_korporasi'', JStr ''PT X''), (''jenis_transaksi'', JStr
           ''PERUBAHAN''), (''nomor_transaksi'', JStr ''1'')],
           data_bo = [[(''nama_lengkap'', JStr ''A''), (''npwp'', JStr ''1''), (''hubungan_bo'',
             JStr ''x'')]]\<rparr>]\<rparr>"

text \<open>One transaction that lists the same owner record twice.\<close>

definition owner_listed_twice :: document where
  "owner_listed_twice =
     \<lparr>kedudukan = JStr ''Jakarta'',
      data_transaksi =
        [\<lparr>props = [(''nama_korporasi'', JStr ''PT X''), (''nomor_transaksi'', JStr ''1'')],
           data_bo = [[(''nama_lengkap'', JStr ''A''), (''npwp'', JStr ''1''), (''hubungan_bo'',
             JStr ''x'')],
                      [(''nama_lengkap'', JStr ''A''), (''npwp'', JStr ''1''), (''hubungan_bo'',
                        JStr ''x'')]]\<rparr>]\<rparr>"

text \<open>
  Statements as the program derives them, with short identifiers: those of a previous
  transaction, those of a new one, an ownership statement whose interested party is not
  among them, a person the new person does not match, two ownership statements whose
  subject is missing (one of that person, one of the prior person), and a person statement
  whose only identifier has no id.
\<close>

definition prior_company :: statement where
  "prior_company =
     \<lparr>statementID = ''c1'', statementType = EntityStatement,
       identifiers = Some [\<lparr>scheme = ''ID-KHH'',
       schemeName = JStr ''Ministry of Justice & Human Rights'',
       idval = JStr ''PT X''\<rparr>], subject = None, interestedParty = None,
       interests = None, replacesStatements = Some []\<rparr>"

definition prior_person :: statement where
  "prior_person =
     \<lparr>statementID = ''p1'', statementType = PersonStatement,
       identifiers = Some [\<lparr>scheme = ''ID-DJP'',
       schemeName = JStr ''Director General of Taxes'', idval = JStr ''1''\<rparr>],
       subject = None, interestedParty = None, interests = None,
       replacesStatements = Some []\<rparr>"

definition prior_ownership :: statement where
  "prior_ownership =
     \<lparr>statementID = ''o1'', statementType = OwnershipOrControlStatement,
       identifiers = None, subject = Some ''c1'', interestedParty = Some ''p1'',
       interests = Some [0], replacesStatements = Some []\<rparr>"

definition dangling_ownership :: statement where
  "dangling_ownership =
     \<lparr>statementID = ''o1'', statementType = OwnershipOrControlStatement,
       identifiers = None, subject = Some ''c1'', interestedParty = Some ''gone'',
       interests = Some [0], replacesStatements = Some []\<rparr>"

definition new_company :: statement where
  "new_company =
     \<lparr>statementID = ''c2'', statementType = EntityStatement,
       identifiers = Some [\<lparr>scheme = ''ID-KHH'',
       schemeName = JStr ''Ministry of Justice & Human Rights'',
       idval = JStr ''PT X''\<rparr>], subject = None, interestedParty = None,
       interests = None, replacesStatements = Some [''c1'']\<rparr>"

definition new_person :: statement where
  "new_person =
     \<lparr>statementID = ''p2'', statementType = PersonStatement,
       identifiers = Some [\<lparr>scheme = ''ID-DJP'',
       schemeName = JStr ''Director General of Taxes'', idval = JStr ''1''\<rparr>],
       subject = None, interestedParty = None, interests = None,
       replacesStatements = Some [''p1'']\<rparr>"

definition new_ownership :: statement where
  "new_ownership =
     \<lparr>statementID = ''o2'', statementType = OwnershipOrControlStatement,
       identifiers = None, subject = Some ''c2'', interestedParty = Some ''p2'',
       interests = Some [1], replacesStatements = None\<rparr>"




definition person_without_id :: "string \<Rightarrow> statement" where
  "person_without_id i =
     \<lparr>statementID = i, statementType = PersonStatement,
       identifiers = Some [\<lparr>scheme = ''ID-DJP'',
       schemeName = JStr ''Director General of Taxes'', idval = JUndefined\<rparr>],
       subject = None, interestedParty = None, interests = None,
       replacesStatements = None\<rparr>"

section \<open>Properties of matching and replacement\<close>

lemma filter_throwing_Some:
  "filter_throwing p xs = Some ys \<Longrightarrow>
     ys = filter (\<lambda>x. p x = Some True) xs \<and> (\<forall>x\<in>set xs. p x \<noteq> None)"
  by (induction xs arbitrary: ys) (auto split: option.splits if_splits)

lemma filter_throwing_total:
  "\<forall>x\<in>set xs. p x \<noteq> None \<Longrightarrow>
     filter_throwing p xs = Some (filter (\<lambda>x. p x = Some True) xs)"
  by (induction xs) (auto split: option.splits)

lemma filter_throwing_None:
  "x \<in> set xs \<Longrightarrow> p x = None \<Longrightarrow> filter_throwing p xs = None"
  by (induction xs) (auto split: option.splits)

lemma matchingIdentifiers_Some:
  "matchingIdentifiers a (Some b) = Some x \<Longrightarrow> x = matches a b"
  by (auto simp: matchingIdentifiers_def matches_def identifiers_of_def list_ex_iff
           split: option.splits list.splits)

lemma matchingIdentifiers_undefined:
  "matchingIdentifiers a None = Some x \<Longrightarrow> x = False"
  by (auto simp: matchingIdentifiers_def split: option.splits list.splits)

lemma matchingIdentifiers_total:
  "identifiers a \<noteq> None \<Longrightarrow> identifiers b \<noteq> None \<Longrightarrow>
     matchingIdentifiers a (Some b) = Some (matches a b)"
  by (auto simp: matchingIdentifiers_def matches_def identifiers_of_def list_ex_iff
           split: option.splits list.splits)

lemma replacedStatements_subset:
  "replacedStatements new olds = Some r \<Longrightarrow> set r \<subseteq> statementID ` set olds"
  by (auto simp: replacedStatements_def dest!: filter_throwing_Some)

lemma replacedOwnershipStatements_subset:
  "replacedOwnershipStatements new ip su olds = Some r \<Longrightarrow> set r \<subseteq> statementID ` set olds"
  by (auto simp: replacedOwnershipStatements_def dest!: filter_throwing_Some)

lemma ownership_callback_cases:
  assumes "filter_throwing (\<lambda>s.
          if statementType s = statementType new
          then (case interestedParty s of
                  None \<Rightarrow> None
                | Some personRef \<Rightarrow>
                   (case subject s of
                      None \<Rightarrow> None
                    | Some entityRef \<Rightarrow>
                       (case matchingIdentifiers ip
                               (find (\<lambda>sp. statementID sp = personRef) olds) of
                          None \<Rightarrow> None
                        | Some False \<Rightarrow> Some False
                        | Some True \<Rightarrow>
                            matchingIdentifiers su
                              (find (\<lambda>sp. statementID sp = entityRef) olds))))
          else Some False) olds' = Some ys"
    and "statementType new = OwnershipOrControlStatement"
  shows "ys = filter (relational_match ip su olds) olds'"
  using assms
proof (induction olds' arbitrary: ys)
  case Nil
  then show ?case by simp
next
  case (Cons s rest)
  show ?case
  proof (cases "statementType s = OwnershipOrControlStatement")
    case False
    then have "\<not> relational_match ip su olds s" by (simp add: relational_match_def)
    with Cons False show ?thesis by (auto split: option.splits)
  next
    case True
    from Cons.prems(1) True Cons.prems(2) obtain pr er b1 where
      refs: "interestedParty s = Some pr" "subject s = Some er"
      and m1: "matchingIdentifiers ip (find (\<lambda>sp. statementID sp = pr) olds) = Some b1"
      by (auto split: option.splits bool.splits)
    show ?thesis
    proof (cases b1)
      case False
      have "\<not> relational_match ip su olds s"
      proof (cases "find (\<lambda>sp. statementID sp = pr) olds")
        case None
        then show ?thesis using refs by (simp add: relational_match_def resolve_def)
      next
        case (Some p)
        with m1 False have "\<not> matches ip p" using matchingIdentifiers_Some by fastforce
        with Some refs show ?thesis by (simp add: relational_match_def resolve_def)
      qed
      with Cons True refs m1 False show ?thesis by (auto split: option.splits)
    next
      case b1T: True
      from Cons.prems(1) True Cons.prems(2) refs m1 b1T obtain b2 where
        m2: "matchingIdentifiers su (find (\<lambda>sp. statementID sp = er) olds) = Some b2"
        by (auto split: option.splits)
      have "find (\<lambda>sp. statementID sp = pr) olds \<noteq> None"
      proof
        assume "find (\<lambda>sp. statementID sp = pr) olds = None"
        with m1 have "b1 = False" using matchingIdentifiers_undefined[of ip b1] by simp
        with b1T show False by simp
      qed
      then obtain p where p: "find (\<lambda>sp. statementID sp = pr) olds = Some p" by auto
      with m1 b1T have mp: "matches ip p" using matchingIdentifiers_Some by fastforce
      have "relational_match ip su olds s = b2"
      proof (cases "find (\<lambda>sp. statementID sp = er) olds")
        case None
        with m2 have "b2 = False" using matchingIdentifiers_undefined by fastforce
        with None refs show ?thesis by (simp add: relational_match_def resolve_def)
      next
        case (Some c)
        with m2 have "b2 = matches su c" using matchingIdentifiers_Some by fastforce
        with Some refs p mp True show ?thesis by (simp add: relational_match_def resolve_def)
      qed
      with Cons True refs m1 b1T m2 show ?thesis by (auto split: option.splits)
    qed
  qed
qed

text \<open>
  Claim C5. The result of \<open>replacedOwnershipStatements\<close> for a new ownership
  statement lists, in order, the statementID of exactly those prior ownership
  statements whose interested party (resolved in the previous statements) matches the new
  interested party on identifiers and whose subject (resolved likewise) matches the new
  subject. The new ownership statement enters only through its type: any other
  ownership statement in its place gives the same result.
\<close>

theorem relational_replacement:
  assumes "replacedOwnershipStatements newStatement newInterestedParty newSubject
             previousStatements = Some r"
    and "statementType newStatement = OwnershipOrControlStatement"
  shows "r = map statementID
               (filter (relational_match newInterestedParty newSubject previousStatements)
                  previousStatements)
         \<and> (\<forall>other. statementType other = OwnershipOrControlStatement \<longrightarrow>
               replacedOwnershipStatements other newInterestedParty newSubject
                 previousStatements = Some r)"
proof -
  from assms(1) obtain ys where
    ys: "filter_throwing (\<lambda>s.
          if statementType s = statementType newStatement
          then (case interestedParty s of
                  None \<Rightarrow> None
                | Some personRef \<Rightarrow>
                   (case subject s of
                      None \<Rightarrow> None
                    | Some entityRef \<Rightarrow>
                       (case matchingIdentifiers newInterestedParty
                               (find (\<lambda>sp. statementID sp = personRef) previousStatements) of
                          None \<Rightarrow> None
                        | Some False \<Rightarrow> Some False
                        | Some True \<Rightarrow>
                            matchingIdentifiers newSubject
                              (find (\<lambda>sp. statementID sp = entityRef) previousStatements))))
          else Some False) previousStatements = Some ys" and r: "r = map statementID ys"
    unfolding replacedOwnershipStatements_def by auto
  have "ys = filter (relational_match newInterestedParty newSubject previousStatements)
               previousStatements"
    by (rule ownership_callback_cases[OF ys assms(2)])
  moreover have "\<forall>other. statementType other = OwnershipOrControlStatement \<longrightarrow>
               replacedOwnershipStatements other newInterestedParty newSubject
                 previousStatements = Some r"
    using assms by (simp add: replacedOwnershipStatements_def)
  ultimately show ?thesis using r by simp
qed

theorem relational_replacement_witness:
  "replacedOwnershipStatements new_ownership new_person new_company
     [prior_company, prior_person, prior_ownership] = Some [''o1''] \<and>
   statementType new_ownership = OwnershipOrControlStatement \<and>
   [''o1''] = map statementID
     (filter (relational_match new_person new_company
                [prior_company, prior_person, prior_ownership])
        [prior_company, prior_person, prior_ownership])"
proof -
  have h1: "replacedOwnershipStatements new_ownership new_person new_company
     [prior_company, prior_person, prior_ownership] = Some [''o1'']"
    and h2: "statementType new_ownership = OwnershipOrControlStatement"
    by (simp_all add: replacedOwnershipStatements_def matchingIdentifiers_def
        prior_company_def prior_person_def prior_ownership_def dangling_ownership_def
        new_company_def new_person_def new_ownership_def)
  show ?thesis
    by (rule conjI[OF h1 conjI[OF h2 relational_replacement[OF h1 h2, THEN conjunct1]]])
qed

text \<open>
  Claim C8. Strict equality holds between two absent (\<^verbatim>\<open>undefined\<close>) id values:
  two statements of one type that each carry an identifier of the same scheme with no
  id match, and the older one is among the statements the newer one replaces.
\<close>

theorem absent_ids_match:
  assumes "identifiers a = Some ia" and "identifiers b = Some ib"
    and "i \<in> set ia" and "j \<in> set ib"
    and "scheme i = scheme j" and "idval i = JUndefined" and "idval j = JUndefined"
    and "statementType b = statementType a" and "b \<in> set olds"
    and "\<forall>s\<in>set olds. statementType s = statementType a \<longrightarrow> identifiers s \<noteq> None"
  shows "matchingIdentifiers a (Some b) = Some True
         \<and> (\<exists>r. replacedStatements a olds = Some r \<and> statementID b \<in> set r)"
proof -
  have "i \<in> set (identifiers_of a)" and "j \<in> set (identifiers_of b)"
    using assms(1-4) by (simp_all add: identifiers_of_def)
  moreover have "scheme j = scheme i \<and> strict_eq (idval j) (idval i)"
    using assms(5-7) by simp
  ultimately have m: "matches a b"
    unfolding matches_def by blast
  have mi: "matchingIdentifiers a (Some b) = Some True"
    using matchingIdentifiers_total[of a b] assms(1,2) m by simp
  let ?p = "\<lambda>oldStatement. if statementType oldStatement = statementType a
          then matchingIdentifiers a (Some oldStatement) else Some False"
  have tot: "\<forall>x\<in>set olds. ?p x \<noteq> None"
    using assms(1,10) matchingIdentifiers_total[of a] by auto
  have "replacedStatements a olds = Some (map statementID (filter (\<lambda>x. ?p x = Some True) olds))"
    unfolding replacedStatements_def using filter_throwing_total[OF tot] by simp
  moreover have "statementID b \<in> set (map statementID (filter (\<lambda>x. ?p x = Some True) olds))"
    using assms(8,9) mi by auto
  ultimately show ?thesis using mi by blast
qed

theorem absent_ids_match_witness:
  "matchingIdentifiers (person_without_id ''new'') (Some (person_without_id ''old''))
     = Some True \<and>
   (\<exists>r. replacedStatements (person_without_id ''new'') [person_without_id ''old''] = Some r
        \<and> statementID (person_without_id ''old'') \<in> set r)"
  by (rule absent_ids_match
        [where i = "\<lparr>scheme = ''ID-DJP'', schemeName = JStr ''Director General of Taxes'',
                     idval = JUndefined\<rparr>"
           and j = "\<lparr>scheme = ''ID-DJP'', schemeName = JStr ''Director General of Taxes'',
                     idval = JUndefined\<rparr>"
           and ia = "[\<lparr>scheme = ''ID-DJP'', schemeName = JStr ''Director General of Taxes'',
                     idval = JUndefined\<rparr>]"
           and ib = "[\<lparr>scheme = ''ID-DJP'', schemeName = JStr ''Director General of Taxes'',
                     idval = JUndefined\<rparr>]"])
     (simp_all add: person_without_id_def)

lemma ownership_callback_total:
  assumes "statementType s = statementType new \<longrightarrow>
             (\<exists>p c. resolve olds (interestedParty s) = Some p \<and> identifiers p \<noteq> None
                  \<and> resolve olds (subject s) = Some c \<and> identifiers c \<noteq> None)"
    and "identifiers ip \<noteq> None" and "identifiers su \<noteq> None"
  shows "(if statementType s = statementType new
          then (case interestedParty s of
                  None \<Rightarrow> None
                | Some personRef \<Rightarrow>
                   (case subject s of
                      None \<Rightarrow> None
                    | Some entityRef \<Rightarrow>
                       (case matchingIdentifiers ip
                               (find (\<lambda>sp. statementID sp = personRef) olds) of
                          None \<Rightarrow> None
                        | Some False \<Rightarrow> Some False
                        | Some True \<Rightarrow>
                            matchingIdentifiers su
                              (find (\<lambda>sp. statementID sp = entityRef) olds))))
          else Some False) \<noteq> None"
proof (cases "statementType s = statementType new")
  case False
  then show ?thesis by simp
next
  case True
  with assms(1) obtain p c where
    p: "resolve olds (interestedParty s) = Some p" "identifiers p \<noteq> None"
    and c: "resolve olds (subject s) = Some c" "identifiers c \<noteq> None" by blast
  from p(1) obtain pr where pr: "interestedParty s = Some pr"
    "find (\<lambda>sp. statementID sp = pr) olds = Some p"
    by (auto simp: resolve_def split: option.splits)
  from c(1) obtain er where er: "subject s = Some er"
    "find (\<lambda>sp. statementID sp = er) olds = Some c"
    by (auto simp: resolve_def split: option.splits)
  show ?thesis
    using True pr er matchingIdentifiers_total[OF assms(2) p(2)]
      matchingIdentifiers_total[OF assms(3) c(2)]
    by (cases "matches ip p") simp_all
qed

section \<open>Properties of one transaction\<close>

lemma push_candidate_Some:
  assumes "push_candidate s rep w = Some (s', w')"
  shows "transactionStatements w' = transactionStatements w @ [s']"
    and "heap w' = heap w"
    and "seenStatementIds w' = insert (statementID s) (seenStatementIds w)"
    and "statementID s \<in> seenStatementIds w \<Longrightarrow> s' = s \<and> newStatements w' = newStatements w"
    and "statementID s \<notin> seenStatementIds w \<Longrightarrow>
           \<exists>r. rep = Some r \<and> s' = s\<lparr>replacesStatements := Some r\<rparr>
              \<and> newStatements w' = newStatements w @ [s']"
    and "statementID s' = statementID s" and "statementType s' = statementType s"
    and "identifiers s' = identifiers s" and "subject s' = subject s"
    and "interestedParty s' = interestedParty s" and "interests s' = interests s"
  using assms
  by (auto simp: push_candidate_def split: if_splits option.splits)

lemma push_candidate_inv:
  assumes pc: "push_candidate s rep w = Some (s', w')"
    and inv: "work_inv seen0 prev w"
    and fresh: "replacesStatements s = None"
    and sub: "\<And>r. rep = Some r \<Longrightarrow> set r \<subseteq> statementID ` set prev"
  shows "work_inv seen0 prev w'"
proof -
  note P = push_candidate_Some[OF pc]
  let ?tx = "transactionStatements w"
  have seen: "seenStatementIds w = seen0 \<union> statementID ` set ?tx"
    using inv by (simp add: work_inv_def)
  have s'_repl: "(replacesStatements s' \<noteq> None) = (statementID s \<notin> seenStatementIds w)"
  proof (cases "statementID s \<in> seenStatementIds w")
    case True
    with P(4) fresh show ?thesis by simp
  next
    case False
    with P(5) show ?thesis by auto
  qed
  have c1: "seenStatementIds w' = seen0 \<union> statementID ` set (transactionStatements w')"
    using P(1,3,6) seen by auto
  have c2: "newStatements w' =
         filter (\<lambda>s. replacesStatements s \<noteq> None) (transactionStatements w')"
  proof (cases "statementID s \<in> seenStatementIds w")
    case True
    with P(4) fresh P(1) inv show ?thesis by (simp add: work_inv_def)
  next
    case False
    with P(5) P(1) inv show ?thesis by (auto simp: work_inv_def)
  qed
  have c3: "\<forall>j < length (transactionStatements w').
           (replacesStatements (transactionStatements w' ! j) \<noteq> None)
           = (statementID (transactionStatements w' ! j)
                \<notin> seen0 \<union> statementID ` set (take j (transactionStatements w')))"
  proof (intro allI impI)
    fix j assume j: "j < length (transactionStatements w')"
    show "(replacesStatements (transactionStatements w' ! j) \<noteq> None)
           = (statementID (transactionStatements w' ! j)
                \<notin> seen0 \<union> statementID ` set (take j (transactionStatements w')))"
    proof (cases "j < length ?tx")
      case True
      then show ?thesis using inv P(1) by (simp add: work_inv_def nth_append)
    next
      case False
      with j P(1) have "j = length ?tx" by simp
      then show ?thesis using P(1,6) s'_repl seen by (simp add: nth_append)
    qed
  qed
  have c4: "\<forall>x \<in> set (transactionStatements w'). \<forall>r. replacesStatements x = Some r \<longrightarrow>
           set r \<subseteq> statementID ` set prev"
  proof (intro ballI allI impI)
    fix x r assume x: "x \<in> set (transactionStatements w')" and r: "replacesStatements x = Some r"
    show "set r \<subseteq> statementID ` set prev"
    proof (cases "x \<in> set ?tx")
      case True
      with inv r show ?thesis unfolding work_inv_def by blast
    next
      case False
      with x P(1) have xs: "x = s'" by simp
      show ?thesis
      proof (cases "statementID s \<in> seenStatementIds w")
        case True
        with P(4) fresh xs r show ?thesis by simp
      next
        case False
        with P(5) xs r sub show ?thesis by auto
      qed
    qed
  qed
  show ?thesis unfolding work_inv_def using c1 c2 c3 c4 by blast
qed

lemma mapPersonStatement_Some:
  assumes "mapPersonStatement e (delete_prop ''hubungan_bo'' bo) sd = Some p"
  shows "statementID p = personID e sd bo" and "statementType p = PersonStatement"
    and "identifiers p \<noteq> None" and "replacesStatements p = None"
    and "subject p = None" and "interestedParty p = None" and "interests p = None"
  using assms by (auto simp: mapPersonStatement_def personID_def split: if_splits)

lemma owner_callback_Some:
  assumes oc: "owner_callback e sd c prev w bo = Some w'"
  shows "\<exists>p ow. transactionStatements w' = transactionStatements w @ [p, ow]
           \<and> statementID p = personID e sd bo \<and> statementType p = PersonStatement
           \<and> identifiers p \<noteq> None \<and> interests p = None
           \<and> statementID ow = ownershipID e sd (statementID c) bo
           \<and> statementType ow = OwnershipOrControlStatement
           \<and> subject ow = Some (statementID c)
           \<and> interestedParty ow = Some (personID e sd bo)
           \<and> interests ow = Some [length (heap w)]
           \<and> heap w' = heap w @ [\<lparr>details = get_prop bo ''hubungan_bo'', endDate = None\<rparr>]
           \<and> (\<forall>seen0. work_inv seen0 prev w \<longrightarrow> work_inv seen0 prev w')"
proof -
  from oc obtain p0 where mp: "mapPersonStatement e (delete_prop ''hubungan_bo'' bo) sd = Some p0"
    by (auto simp: owner_callback_def split: option.splits)
  note M = mapPersonStatement_Some[OF mp]
  from oc mp obtain p w1 where
    pc1: "push_candidate p0 (replacedStatements p0 prev) w = Some (p, w1)"
    by (auto simp: owner_callback_def split: option.splits)
  note P1 = push_candidate_Some[OF pc1]
  obtain o0 h where mo: "mapOwnershipOrControlStatement e c p bo sd (heap w1) = (o0, h)"
    by (cases "mapOwnershipOrControlStatement e c p bo sd (heap w1)") auto
  from oc mp pc1 mo obtain ow where
    pc2: "push_candidate o0 (replacedOwnershipStatements o0 p c prev) (w1\<lparr>heap := h\<rparr>)
            = Some (ow, w')"
    by (auto simp: owner_callback_def split: option.splits)
  note P2 = push_candidate_Some[OF pc2]
  have o0: "statementID o0 = ownershipID e sd (statementID c) bo"
    "statementType o0 = OwnershipOrControlStatement"
    "subject o0 = Some (statementID c)" "interestedParty o0 = Some (personID e sd bo)"
    "interests o0 = Some [length (heap w)]" "replacesStatements o0 = None"
    "h = heap w @ [\<lparr>details = get_prop bo ''hubungan_bo'', endDate = None\<rparr>]"
    using mo P1(2,6) M(1)
    by (auto simp: mapOwnershipOrControlStatement_def ownershipID_def)
  have inv: "work_inv seen0 prev w'" if i0: "work_inv seen0 prev w" for seen0
  proof -
    have i1: "work_inv seen0 prev w1"
      by (rule push_candidate_inv[OF pc1 i0 M(4)]) (rule replacedStatements_subset)
    have i1': "work_inv seen0 prev (w1\<lparr>heap := h\<rparr>)"
      using i1 by (simp add: work_inv_def)
    show ?thesis
      by (rule push_candidate_inv[OF pc2 i1' o0(6)]) (rule replacedOwnershipStatements_subset)
  qed
  have "transactionStatements w' = transactionStatements w @ [p, ow]"
    using P1(1) P2(1) by simp
  moreover have "heap w' = heap w @ [\<lparr>details = get_prop bo ''hubungan_bo'', endDate = None\<rparr>]"
    using P2(2) o0(7) by simp
  ultimately show ?thesis
    using P1(6-11) M P2(6-11) o0 inv by auto
qed

lemma forEach_owner_Some:
  assumes "forEach_owner e sd c prev bos w = Some w'"
  shows "map statementID (transactionStatements w')
           = map statementID (transactionStatements w)
             @ concat (map (\<lambda>bo. [personID e sd bo, ownershipID e sd (statementID c) bo]) bos)
         \<and> map statementType (transactionStatements w')
           = map statementType (transactionStatements w)
             @ concat (map (\<lambda>bo. [PersonStatement, OwnershipOrControlStatement]) bos)
         \<and> (\<forall>seen0. work_inv seen0 prev w \<longrightarrow> work_inv seen0 prev w')"
  using assms
proof (induction bos arbitrary: w)
  case Nil
  then show ?case by simp
next
  case (Cons bo rest)
  from Cons.prems obtain w1 where
    oc: "owner_callback e sd c prev w bo = Some w1"
    and r: "forEach_owner e sd c prev rest w1 = Some w'"
    by (auto split: option.splits)
  from owner_callback_Some[OF oc] obtain p ow where
    s: "transactionStatements w1 = transactionStatements w @ [p, ow]"
      "statementID p = personID e sd bo" "statementType p = PersonStatement"
      "statementID ow = ownershipID e sd (statementID c) bo"
      "statementType ow = OwnershipOrControlStatement"
      "\<forall>seen0. work_inv seen0 prev w \<longrightarrow> work_inv seen0 prev w1"
    by blast
  from Cons.IH[OF r] s show ?case by simp
qed

lemma candidates_Some:
  assumes "candidates e loc st t = Some w"
  shows "map statementID (transactionStatements w)
           = companyID e loc t
             # concat (map (\<lambda>bo. [personID e (sourceData_of t) bo,
                                    ownershipID e (sourceData_of t) (companyID e loc t) bo])
                        (data_bo t))"
    and "map statementType (transactionStatements w)
           = EntityStatement
             # concat (map (\<lambda>bo. [PersonStatement, OwnershipOrControlStatement]) (data_bo t))"
    and "work_inv (seen st) (prevTransactionStatements st) w"
proof -
  let ?c = "mapCompanyStatement e [(''nama_korporasi'', get_prop (props t) ''nama_korporasi'')] loc"
  let ?w0 = "\<lparr>seenStatementIds = seen st, transactionStatements = [],
                 newStatements = [], heap = objects st\<rparr>"
  from assms obtain c w1 where
    pc: "push_candidate ?c (replacedStatements ?c (prevTransactionStatements st)) ?w0
           = Some (c, w1)"
    and fe: "forEach_owner e (sourceData_of t) c (prevTransactionStatements st) (data_bo t) w1
           = Some w"
    by (auto simp: candidates_def Let_def split: option.splits)
  note P = push_candidate_Some[OF pc]
  have c: "statementID c = companyID e loc t" "statementType c = EntityStatement"
    using P(6,7) by (simp_all add: mapCompanyStatement_def companyID_def)
  have i0: "work_inv (seen st) (prevTransactionStatements st) ?w0"
    by (simp add: work_inv_def)
  have i1: "work_inv (seen st) (prevTransactionStatements st) w1"
    by (rule push_candidate_inv[OF pc i0])
       (simp_all add: mapCompanyStatement_def replacedStatements_subset)
  from forEach_owner_Some[OF fe] P(1) c i1
  show "map statementID (transactionStatements w)
           = companyID e loc t
             # concat (map (\<lambda>bo. [personID e (sourceData_of t) bo,
                                    ownershipID e (sourceData_of t) (companyID e loc t) bo])
                        (data_bo t))"
    and "map statementType (transactionStatements w)
           = EntityStatement
             # concat (map (\<lambda>bo. [PersonStatement, OwnershipOrControlStatement]) (data_bo t))"
    and "work_inv (seen st) (prevTransactionStatements st) w"
    by simp_all
qed

lemma closure_pass_Some:
  "closure_pass e txs pss (new, h, k) = Some (new', h', k') \<Longrightarrow>
     new' = new @ map (closing_of e) (enumerate k (filter (not_covered txs) pss))
     \<and> k' = k + length (filter (not_covered txs) pss)
     \<and> length h' = length h"
proof (induction pss arbitrary: new h k)
  case Nil
  then show ?case by simp
next
  case (Cons ps rest)
  show ?case
  proof (cases "not_covered txs ps")
    case False
    with Cons show ?thesis by simp
  next
    case True
    with Cons.prems obtain en h1 k1 where
      cs: "close_statement e ps (h, k) = Some (en, h1, k1)"
      and r: "closure_pass e txs rest (new @ [en], h1, k1) = Some (new', h', k')"
      by (auto split: option.splits)
    from cs have en: "en = closing_of e (k, ps)" "k1 = Suc k" "length h1 = length h"
      by (auto simp: close_statement_def closing_of_def split: option.splits list.splits)
    from Cons.IH[OF r] en True show ?thesis by simp
  qed
qed

lemma transaction_step_Some:
  assumes "transaction_step e loc st t = Some (new, st')"
  shows "\<exists>w. candidates e loc st t = Some w
           \<and> seen st' = seenStatementIds w
           \<and> prevTransactionStatements st' = transactionStatements w
           \<and> new = newStatements w
                 @ map (closing_of e)
                     (enumerate (closings st)
                        (ended (transactionStatements w) (prevTransactionStatements st)))
           \<and> closings st' = closings st
                 + length (ended (transactionStatements w) (prevTransactionStatements st))"
proof -
  from assms obtain w h k where
    c: "candidates e loc st t = Some w"
    and cp: "closure_pass e (transactionStatements w)
                 (filter (\<lambda>ps. statementType ps = OwnershipOrControlStatement)
                    (prevTransactionStatements st))
                 (newStatements w, heap w, closings st) = Some (new, h, k)"
    and st': "st' = \<lparr>seen = seenStatementIds w,
                          prevTransactionStatements = transactionStatements w,
                          objects = h, closings = k\<rparr>"
    by (auto simp: transaction_step_def split: option.splits)
  from closure_pass_Some[OF cp] c st' show ?thesis
    by (simp add: ended_def)
qed

lemma run_length: "run e loc st ts = Some steps \<Longrightarrow> length steps = length ts"
  by (induction ts arbitrary: st steps) (auto split: option.splits)

lemma run_nth:
  "run e loc st ts = Some steps \<Longrightarrow> n < length steps \<Longrightarrow>
     transaction_step e loc (if n = 0 then st else snd (steps ! (n - 1))) (ts ! n)
       = Some (steps ! n)"
proof (induction ts arbitrary: st steps n)
  case Nil
  then show ?case by simp
next
  case (Cons t ts)
  from Cons.prems(1) obtain new st' rest where
    ts: "transaction_step e loc st t = Some (new, st')"
    and r: "run e loc st' ts = Some rest" and steps: "steps = (new, st') # rest"
    by (auto split: option.splits)
  show ?case
  proof (cases n)
    case 0
    with ts steps show ?thesis by simp
  next
    case (Suc m)
    with Cons.prems(2) steps have m: "m < length rest" by simp
    from Cons.IH[OF r m] Suc steps show ?thesis
      by (cases m) simp_all
  qed
qed

lemma work_inv_new_subset:
  "work_inv seen0 prev w \<Longrightarrow> s \<in> set (newStatements w) \<Longrightarrow>
     s \<in> set (transactionStatements w)
     \<and> (\<exists>r. replacesStatements s = Some r \<and> set r \<subseteq> statementID ` set prev)"
  unfolding work_inv_def by auto

lemma in_ended:
  "ps \<in> set (ended txs prev) \<longleftrightarrow>
     ps \<in> set prev \<and> statementType ps = OwnershipOrControlStatement \<and> not_covered txs ps"
  by (auto simp: ended_def)

lemma in_closings:
  "s \<in> set (map (closing_of e) (enumerate k xs)) \<longleftrightarrow>
     (\<exists>i < length xs. s = closing_of e (k + i, xs ! i))"
proof
  assume "s \<in> set (map (closing_of e) (enumerate k xs))"
  then obtain p where p: "p \<in> set (enumerate k xs)" "s = closing_of e p" by auto
  then have "k \<le> fst p" "fst p < length xs + k" "xs ! (fst p - k) = snd p"
    by (simp_all add: in_set_enumerate_eq)
  then have "fst p - k < length xs" "p = (k + (fst p - k), xs ! (fst p - k))"
    by (auto simp: prod_eq_iff)
  with p(2) show "\<exists>i < length xs. s = closing_of e (k + i, xs ! i)" by metis
next
  assume "\<exists>i < length xs. s = closing_of e (k + i, xs ! i)"
  then obtain i where i: "i < length xs" "s = closing_of e (k + i, xs ! i)" by blast
  then have "(k + i, xs ! i) \<in> set (enumerate k xs)"
    by (simp add: in_set_enumerate_eq)
  with i(2) show "s \<in> set (map (closing_of e) (enumerate k xs))" by force
qed

lemma step_emitted:
  assumes "transaction_step e loc st t = Some (new, st')" and "s \<in> set new"
  shows "\<exists>r. replacesStatements s = Some r
           \<and> set r \<subseteq> statementID ` set (prevTransactionStatements st)"
proof -
  from transaction_step_Some[OF assms(1)] obtain w where
    c: "candidates e loc st t = Some w"
    and new: "new = newStatements w
                 @ map (closing_of e)
                     (enumerate (closings st)
                        (ended (transactionStatements w) (prevTransactionStatements st)))"
    by blast
  note inv = candidates_Some(3)[OF c]
  from assms(2) new consider
    (cand) "s \<in> set (newStatements w)"
    | (closing) "s \<in> set (map (closing_of e)
                     (enumerate (closings st)
                        (ended (transactionStatements w) (prevTransactionStatements st))))"
    by auto
  then show ?thesis
  proof cases
    case cand
    with work_inv_new_subset[OF inv] show ?thesis by blast
  next
    case closing
    then obtain i where
      i: "i < length (ended (transactionStatements w) (prevTransactionStatements st))"
      "s = closing_of e (closings st + i,
             ended (transactionStatements w) (prevTransactionStatements st) ! i)"
      unfolding in_closings by blast
    let ?ps = "ended (transactionStatements w) (prevTransactionStatements st) ! i"
    from i(1) have "?ps \<in> set (ended (transactionStatements w) (prevTransactionStatements st))"
      by simp
    then have "?ps \<in> set (prevTransactionStatements st)" by (simp add: in_ended)
    with i(2) show ?thesis by (simp add: closing_of_def)
  qed
qed

lemma step_no_loss:
  assumes ts: "transaction_step e loc st t = Some (new, st')"
    and ps: "ps \<in> set (prevTransactionStatements st)"
    and ty: "statementType ps = OwnershipOrControlStatement"
    and absent: "statementID ps \<notin> statementID ` set (prevTransactionStatements st')"
  shows "(\<exists>s \<in> set new. \<exists>r. s \<in> set (prevTransactionStatements st')
             \<and> replacesStatements s = Some r \<and> statementID ps \<in> set r)
         \<or> (\<exists>s \<in> set new. \<exists>k. s = ps\<lparr>statementID := uuidv4 e k,
                                       replacesStatements := Some [statementID ps]\<rparr>)"
proof -
  from transaction_step_Some[OF ts] obtain w where
    c: "candidates e loc st t = Some w"
    and prev': "prevTransactionStatements st' = transactionStatements w"
    and new: "new = newStatements w
                 @ map (closing_of e)
                     (enumerate (closings st)
                        (ended (transactionStatements w) (prevTransactionStatements st)))"
    by blast
  note inv = candidates_Some(3)[OF c]
  show ?thesis
  proof (cases "not_covered (transactionStatements w) ps")
    case True
    with ps ty have "ps \<in> set (ended (transactionStatements w) (prevTransactionStatements st))"
      by (simp add: in_ended)
    then obtain i where
      i: "i < length (ended (transactionStatements w) (prevTransactionStatements st))"
      "ended (transactionStatements w) (prevTransactionStatements st) ! i = ps"
      by (auto simp: in_set_conv_nth)
    then have "closing_of e (closings st + i, ps) \<in> set new"
      unfolding new using in_closings[of "closing_of e (closings st + i, ps)" e "closings st"
          "ended (transactionStatements w) (prevTransactionStatements st)"]
      by auto
    then show ?thesis by (auto simp: closing_of_def)
  next
    case False
    have "\<forall>x \<in> set (transactionStatements w). statementID x \<noteq> statementID ps"
      using absent prev' by (metis imageI)
    then have "find (\<lambda>s. statementID s = statementID ps) (transactionStatements w) = None"
      by (simp add: find_None_iff)
    with False obtain s where
      f: "find (\<lambda>s. case replacesStatements s of None \<Rightarrow> False
                     | Some r \<Rightarrow> statementID ps \<in> set r) (transactionStatements w) = Some s"
      by (auto simp: not_covered_def)
    then have s: "s \<in> set (transactionStatements w)"
      and "case replacesStatements s of None \<Rightarrow> False | Some r \<Rightarrow> statementID ps \<in> set r"
      by (auto simp: find_Some_iff)
    then obtain r where r: "replacesStatements s = Some r" "statementID ps \<in> set r"
      by (auto split: option.splits)
    from inv s r(1) have "s \<in> set (newStatements w)"
      by (simp add: work_inv_def)
    with new s r prev' show ?thesis by auto
  qed
qed

lemma candidate_ids_hashed:
  assumes "candidates e loc st t = Some w" and "s \<in> set (transactionStatements w)"
  shows "statementID s \<in> range (statementID_hash e)"
proof -
  from assms(2) have "statementID s \<in> set (map statementID (transactionStatements w))"
    by simp
  then show ?thesis
    unfolding candidates_Some(1)[OF assms(1)]
    by (auto simp: companyID_def personID_def ownershipID_def)
qed

lemma step_candidates:
  assumes "transaction_step e loc st t = Some (new, st')"
  shows "\<exists>w. candidates e loc st t = Some w
           \<and> prevTransactionStatements st' = transactionStatements w
           \<and> seen st' = seen st \<union> statementID ` set (transactionStatements w)
           \<and> newStatements w
               = filter (\<lambda>s. replacesStatements s \<noteq> None) (transactionStatements w)
           \<and> new = newStatements w
                 @ map (closing_of e)
                     (enumerate (closings st)
                        (ended (transactionStatements w) (prevTransactionStatements st)))
           \<and> closings st' = closings st
                 + length (ended (transactionStatements w) (prevTransactionStatements st))
           \<and> (\<forall>j < length (transactionStatements w).
                (replacesStatements (transactionStatements w ! j) \<noteq> None)
                = (statementID (transactionStatements w ! j)
                     \<notin> seen st \<union> statementID ` set (take j (transactionStatements w))))"
proof -
  from transaction_step_Some[OF assms] obtain w where
    w: "candidates e loc st t = Some w" "seen st' = seenStatementIds w"
      "prevTransactionStatements st' = transactionStatements w"
      "new = newStatements w
                 @ map (closing_of e)
                     (enumerate (closings st)
                        (ended (transactionStatements w) (prevTransactionStatements st)))"
      "closings st' = closings st
                 + length (ended (transactionStatements w) (prevTransactionStatements st))"
    by blast
  from candidates_Some(3)[OF w(1)] w show ?thesis
    unfolding work_inv_def by auto
qed

lemma statementID_hash_env [simp]:
  "statementID_hash (e\<lparr>uuidv4 := u, today := d\<rparr>) = statementID_hash e"
  by (rule ext) (simp add: statementID_hash_def)

lemma owner_callback_env:
  "owner_callback (e\<lparr>uuidv4 := u, today := d\<rparr>) sd c prev w bo = owner_callback e sd c prev w bo"
  by (simp add: owner_callback_def mapPersonStatement_def mapOwnershipOrControlStatement_def
        cong: option.case_cong prod.case_cong)

lemma forEach_owner_env:
  "forEach_owner (e\<lparr>uuidv4 := u, today := d\<rparr>) sd c prev bos w = forEach_owner e sd c prev bos w"
  by (induction bos arbitrary: w) (simp_all add: owner_callback_env split: option.splits)

lemma candidates_env:
  "candidates (e\<lparr>uuidv4 := u, today := d\<rparr>) loc st t = candidates e loc st t"
  by (simp add: candidates_def mapCompanyStatement_def forEach_owner_env Let_def
        cong: option.case_cong prod.case_cong)

lemma distinct_first_occurrences:
  "\<forall>j < length xs. P (xs ! j) \<longrightarrow> f (xs ! j) \<notin> S \<union> f ` set (take j xs) \<Longrightarrow>
     distinct (map f (filter P xs)) \<and> f ` set (filter P xs) \<inter> S = {}"
proof (induction xs rule: rev_induct)
  case Nil
  then show ?case by simp
next
  case (snoc x xs)
  have "\<forall>j < length xs. P (xs ! j) \<longrightarrow> f (xs ! j) \<notin> S \<union> f ` set (take j xs)"
  proof (intro allI impI)
    fix j assume j: "j < length xs" and p: "P (xs ! j)"
    with snoc.prems have "P ((xs @ [x]) ! j) \<longrightarrow>
        f ((xs @ [x]) ! j) \<notin> S \<union> f ` set (take j (xs @ [x]))"
      by (metis length_append_singleton less_Suc_eq)
    with j p show "f (xs ! j) \<notin> S \<union> f ` set (take j xs)"
      by (simp add: nth_append)
  qed
  from snoc.IH[OF this] have ih: "distinct (map f (filter P xs))"
    "f ` set (filter P xs) \<inter> S = {}" by simp_all
  have last: "P x \<longrightarrow> f x \<notin> S \<union> f ` set xs"
    using snoc.prems by (metis order_refl append_eq_conv_conj length_append_singleton lessI nth_append_length)
  show ?case
  proof (cases "P x")
    case True
    with last have "f x \<notin> S" "f x \<notin> f ` set (filter P xs)" by auto
    with ih True show ?thesis by auto
  next
    case False
    with ih show ?thesis by simp
  qed
qed

lemma closing_ids:
  "map statementID (map (closing_of e) (enumerate k xs)) = map (uuidv4 e) [k ..< k + length xs]"
  by (induction xs arbitrary: k) (simp_all add: closing_of_def upt_rec)

lemma step_distinct:
  assumes inj: "inj (uuidv4 e)" and hashed: "\<forall>k d. uuidv4 e k \<noteq> statementID_hash e d"
    and ts: "transaction_step e loc st t = Some (new, st')"
  shows "distinct (map statementID new)"
    and "\<forall>s \<in> set new.
           (statementID s \<in> seen st' \<and> statementID s \<notin> seen st
              \<and> statementID s \<in> range (statementID_hash e))
           \<or> (\<exists>k. closings st \<le> k \<and> k < closings st' \<and> statementID s = uuidv4 e k)"
    and "seen st \<subseteq> seen st'" and "closings st \<le> closings st'"
proof -
  from step_candidates[OF ts] obtain w where
    all: "candidates e loc st t = Some w
           \<and> prevTransactionStatements st' = transactionStatements w
           \<and> seen st' = seen st \<union> statementID ` set (transactionStatements w)
           \<and> newStatements w
               = filter (\<lambda>s. replacesStatements s \<noteq> None) (transactionStatements w)
           \<and> new = newStatements w
                 @ map (closing_of e)
                     (enumerate (closings st)
                        (ended (transactionStatements w) (prevTransactionStatements st)))
           \<and> closings st' = closings st
                 + length (ended (transactionStatements w) (prevTransactionStatements st))
           \<and> (\<forall>j < length (transactionStatements w).
                (replacesStatements (transactionStatements w ! j) \<noteq> None)
                = (statementID (transactionStatements w ! j)
                     \<notin> seen st \<union> statementID ` set (take j (transactionStatements w))))"
    ..
  let ?c = "transactionStatements w"
  let ?e = "ended ?c (prevTransactionStatements st)"
  define cl where "cl = map (closing_of e) (enumerate (closings st) ?e)"
  from all have c: "candidates e loc st t = Some w"
    and seen': "seen st' = seen st \<union> statementID ` set ?c"
    and nw: "newStatements w = filter (\<lambda>s. replacesStatements s \<noteq> None) ?c"
    and new: "new = newStatements w @ cl"
    and k': "closings st' = closings st + length ?e"
    and first: "\<forall>j < length ?c. (replacesStatements (?c ! j) \<noteq> None)
                = (statementID (?c ! j) \<notin> seen st \<union> statementID ` set (take j ?c))"
    by (simp_all add: cl_def)
  from first have "\<forall>j < length ?c. replacesStatements (?c ! j) \<noteq> None \<longrightarrow>
      statementID (?c ! j) \<notin> seen st \<union> statementID ` set (take j ?c)" by blast
  from distinct_first_occurrences[OF this] nw
  have d1: "distinct (map statementID (newStatements w))"
    and fresh: "statementID ` set (newStatements w) \<inter> seen st = {}" by simp_all
  have clids: "map statementID cl = map (uuidv4 e) [closings st ..< closings st + length ?e]"
    unfolding cl_def by (rule closing_ids)
  have d2: "distinct (map statementID cl)"
    unfolding clids using inj by (simp add: distinct_map inj_on_def inj_def)
  have cand: "statementID s \<in> range (statementID_hash e)" "statementID s \<in> seen st'"
    "statementID s \<notin> seen st" if "s \<in> set (newStatements w)" for s
  proof -
    from that nw have sc: "s \<in> set ?c" by simp
    from candidate_ids_hashed[OF c sc] show "statementID s \<in> range (statementID_hash e)" .
    from sc seen' show "statementID s \<in> seen st'" by simp
    from that fresh show "statementID s \<notin> seen st" by auto
  qed
  have clk: "\<exists>k. closings st \<le> k \<and> k < closings st' \<and> statementID s = uuidv4 e k"
    if "s \<in> set cl" for s
  proof -
    from that have "statementID s \<in> set (map statementID cl)" by simp
    then show ?thesis unfolding clids k' by auto
  qed
  have disj: "statementID ` set (newStatements w) \<inter> statementID ` set cl = {}"
  proof (rule ccontr)
    assume "statementID ` set (newStatements w) \<inter> statementID ` set cl \<noteq> {}"
    then obtain a b where ab: "a \<in> set (newStatements w)" "b \<in> set cl"
      "statementID a = statementID b" by auto
    from cand(1)[OF ab(1)] obtain d where "statementID a = statementID_hash e d" by auto
    moreover from clk[OF ab(2)] obtain k where "statementID b = uuidv4 e k" by auto
    ultimately show False using hashed ab(3) by metis
  qed
  show "distinct (map statementID new)"
    unfolding new using d1 d2 disj by simp
  show "\<forall>s \<in> set new.
           (statementID s \<in> seen st' \<and> statementID s \<notin> seen st
              \<and> statementID s \<in> range (statementID_hash e))
           \<or> (\<exists>k. closings st \<le> k \<and> k < closings st' \<and> statementID s = uuidv4 e k)"
  proof
    fix s assume "s \<in> set new"
    then consider "s \<in> set (newStatements w)" | "s \<in> set cl" unfolding new by auto
    then show "(statementID s \<in> seen st' \<and> statementID s \<notin> seen st
              \<and> statementID s \<in> range (statementID_hash e))
           \<or> (\<exists>k. closings st \<le> k \<and> k < closings st' \<and> statementID s = uuidv4 e k)"
      using cand clk by cases blast+
  qed
  show "seen st \<subseteq> seen st'" using seen' by auto
  show "closings st \<le> closings st'" using k' by simp
qed


lemma run_distinct:
  assumes inj: "inj (uuidv4 e)" and hashed: "\<forall>k d. uuidv4 e k \<noteq> statementID_hash e d"
    and run: "run e loc st ts = Some steps"
  shows "distinct (map statementID (concat (map fst steps)))
         \<and> (\<forall>s \<in> set (concat (map fst steps)).
               (statementID s \<notin> seen st \<and> statementID s \<in> range (statementID_hash e))
               \<or> (\<exists>k. closings st \<le> k \<and> statementID s = uuidv4 e k))"
  using run
proof (induction ts arbitrary: st steps)
  case Nil
  then show ?case by simp
next
  case (Cons t ts)
  from Cons.prems obtain new st' rest where
    ts: "transaction_step e loc st t = Some (new, st')"
    and r: "run e loc st' ts = Some rest" and steps: "steps = (new, st') # rest"
    by (auto split: option.splits)
  note S = step_distinct[OF inj hashed ts]
  from Cons.IH[OF r] have ih1: "distinct (map statementID (concat (map fst rest)))"
    and ih2: "\<forall>s \<in> set (concat (map fst rest)).
               (statementID s \<notin> seen st' \<and> statementID s \<in> range (statementID_hash e))
               \<or> (\<exists>k. closings st' \<le> k \<and> statementID s = uuidv4 e k)"
    by simp_all
  have disj: "statementID a \<noteq> statementID b"
    if a: "a \<in> set new" and b: "b \<in> set (concat (map fst rest))" for a b
  proof
    assume eq: "statementID a = statementID b"
    from S(2) a consider
      (ac) "statementID a \<in> seen st'" "statementID a \<in> range (statementID_hash e)"
      | (au) k where "k < closings st'" "statementID a = uuidv4 e k" by blast
    then show False
    proof cases
      case ac
      from ih2 b consider
        (bc) "statementID b \<notin> seen st'"
        | (bu) k' where "statementID b = uuidv4 e k'" by blast
      then show False
      proof cases
        case bc
        with ac(1) eq show False by simp
      next
        case bu
        from ac(2) obtain d where "statementID a = statementID_hash e d" by auto
        with bu eq hashed show False by metis
      qed
    next
      case au
      from ih2 b consider
        (bc) "statementID b \<in> range (statementID_hash e)"
        | (bu) k' where "closings st' \<le> k'" "statementID b = uuidv4 e k'" by blast
      then show False
      proof cases
        case bc
        then obtain d where "statementID b = statementID_hash e d" by auto
        with au(2) eq hashed show False by metis
      next
        case bu
        with au eq have "uuidv4 e k = uuidv4 e k'" by simp
        with inj have "k = k'" by (simp add: inj_def)
        with au(1) bu(1) show False by simp
      qed
    qed
  qed
  have d: "distinct (map statementID (concat (map fst steps)))"
    unfolding steps using S(1) ih1 disj by (auto simp: distinct_append)
  have p: "(statementID s \<notin> seen st \<and> statementID s \<in> range (statementID_hash e))
               \<or> (\<exists>k. closings st \<le> k \<and> statementID s = uuidv4 e k)"
    if "s \<in> set (concat (map fst steps))" for s
  proof -
    from that steps consider "s \<in> set new" | "s \<in> set (concat (map fst rest))" by auto
    then show ?thesis
    proof cases
      case 1
      with S(2) show ?thesis by blast
    next
      case 2
      with ih2 have "(statementID s \<notin> seen st' \<and> statementID s \<in> range (statementID_hash e))
               \<or> (\<exists>k. closings st' \<le> k \<and> statementID s = uuidv4 e k)" by blast
      with S(3,4) show ?thesis by (meson subsetD le_trans)
    qed
  qed
  from d p show ?case by blast
qed

lemma step_repeated:
  assumes s1: "transaction_step e loc st t = Some (new, st')"
    and s2: "transaction_step e loc st' t' = Some (new', st'')"
    and name: "get_prop (props t') ''nama_korporasi'' = get_prop (props t) ''nama_korporasi''"
    and src: "sourceData_of t' = sourceData_of t"
    and bo: "data_bo t' = data_bo t"
  shows "new' = []"
proof -
  from step_candidates[OF s1] obtain w where
    all1: "candidates e loc st t = Some w
           \<and> prevTransactionStatements st' = transactionStatements w
           \<and> seen st' = seen st \<union> statementID ` set (transactionStatements w)
           \<and> newStatements w
               = filter (\<lambda>s. replacesStatements s \<noteq> None) (transactionStatements w)
           \<and> new = newStatements w
                 @ map (closing_of e)
                     (enumerate (closings st)
                        (ended (transactionStatements w) (prevTransactionStatements st)))
           \<and> closings st' = closings st
                 + length (ended (transactionStatements w) (prevTransactionStatements st))
           \<and> (\<forall>j < length (transactionStatements w).
                (replacesStatements (transactionStatements w ! j) \<noteq> None)
                = (statementID (transactionStatements w ! j)
                     \<notin> seen st \<union> statementID ` set (take j (transactionStatements w))))"
    ..
  from step_candidates[OF s2] obtain w' where
    all2: "candidates e loc st' t' = Some w'
           \<and> prevTransactionStatements st'' = transactionStatements w'
           \<and> seen st'' = seen st' \<union> statementID ` set (transactionStatements w')
           \<and> newStatements w'
               = filter (\<lambda>s. replacesStatements s \<noteq> None) (transactionStatements w')
           \<and> new' = newStatements w'
                 @ map (closing_of e)
                     (enumerate (closings st')
                        (ended (transactionStatements w') (prevTransactionStatements st')))
           \<and> closings st'' = closings st'
                 + length (ended (transactionStatements w') (prevTransactionStatements st'))
           \<and> (\<forall>j < length (transactionStatements w').
                (replacesStatements (transactionStatements w' ! j) \<noteq> None)
                = (statementID (transactionStatements w' ! j)
                     \<notin> seen st' \<union> statementID ` set (take j (transactionStatements w'))))"
    ..
  let ?c = "transactionStatements w" and ?c' = "transactionStatements w'"
  from all1 have c1: "candidates e loc st t = Some w"
    and prev': "prevTransactionStatements st' = ?c"
    and seen': "seen st' = seen st \<union> statementID ` set ?c" by simp_all
  from all2 have c2: "candidates e loc st' t' = Some w'"
    and nw: "newStatements w' = filter (\<lambda>s. replacesStatements s \<noteq> None) ?c'"
    and new': "new' = newStatements w'
                 @ map (closing_of e)
                     (enumerate (closings st') (ended ?c' (prevTransactionStatements st')))"
    and first: "\<forall>j < length ?c'. (replacesStatements (?c' ! j) \<noteq> None)
                = (statementID (?c' ! j) \<notin> seen st' \<union> statementID ` set (take j ?c'))"
    by simp_all
  have "companyID e loc t' = companyID e loc t"
    using name by (simp add: companyID_def)
  then have ids: "map statementID ?c' = map statementID ?c"
    unfolding candidates_Some(1)[OF c1] candidates_Some(1)[OF c2] using src bo by simp
  then have idset: "statementID ` set ?c' = statementID ` set ?c"
    by (metis set_map)
  have none: "replacesStatements x = None" if "x \<in> set ?c'" for x
  proof -
    from that obtain j where j: "j < length ?c'" "?c' ! j = x"
      by (auto simp: in_set_conv_nth)
    from that idset seen' have "statementID x \<in> seen st'" by auto
    with first j show ?thesis by auto
  qed
  then have n1: "newStatements w' = []"
    unfolding nw by (simp add: filter_empty_conv)
  have "\<not> not_covered ?c' ps" if "ps \<in> set (prevTransactionStatements st')" for ps
  proof -
    from that prev' idset have "statementID ps \<in> statementID ` set ?c'" by auto
    then have "find (\<lambda>s. statementID s = statementID ps) ?c' \<noteq> None"
      by (auto simp: find_None_iff)
    then show ?thesis by (simp add: not_covered_def)
  qed
  then have n2: "ended ?c' (prevTransactionStatements st') = []"
    by (simp add: ended_def filter_empty_conv)
  from new' n1 n2 show ?thesis by simp
qed






section \<open>Properties of a run\<close>

text \<open>
  In the theorems below \<open>steps\<close> is the result of \<open>run\<close> on a document: its
  \<open>n\<close>-th entry holds the statements the \<open>n\<close>-th transaction returns (its output) and
  the state it leaves, whose \<open>prevTransactionStatements\<close> is the full candidate set of
  that transaction. \<open>statements\<close> returns the outputs one after the other.
\<close>

text \<open>
  Claim C1. An ownership statement of the candidate set of transaction \<open>n\<close> whose
  statementID no candidate of transaction \<open>n + 1\<close> carries is never lost: the output of
  transaction \<open>n + 1\<close> holds a candidate whose \<^verbatim>\<open>replacesStatements\<close> includes that
  statementID, or the closing statement made from it, a copy with a generated identifier
  whose \<^verbatim>\<open>replacesStatements\<close> is exactly that statementID.
\<close>

theorem no_silent_loss:
  assumes "run e (kedudukan data) initial (data_transaksi data) = Some steps"
    and "Suc n < length steps"
    and "ps \<in> set (prevTransactionStatements (snd (steps ! n)))"
    and "statementType ps = OwnershipOrControlStatement"
    and "statementID ps \<notin> statementID ` set (prevTransactionStatements (snd (steps ! Suc n)))"
  shows "(\<exists>s \<in> set (fst (steps ! Suc n)). \<exists>r.
             s \<in> set (prevTransactionStatements (snd (steps ! Suc n)))
             \<and> replacesStatements s = Some r \<and> statementID ps \<in> set r)
         \<or> (\<exists>s \<in> set (fst (steps ! Suc n)). \<exists>k.
               s = ps\<lparr>statementID := uuidv4 e k,
                      replacesStatements := Some [statementID ps]\<rparr>)"
proof -
  obtain new st' where sn: "steps ! Suc n = (new, st')" by (cases "steps ! Suc n") auto
  from run_nth[OF assms(1,2)] sn have
    "transaction_step e (kedudukan data) (snd (steps ! n)) (data_transaksi data ! Suc n)
       = Some (new, st')" by simp
  from step_no_loss[OF this assms(3,4)] assms(5) sn show ?thesis by simp
qed

text \<open>
  Claim C6. Every statement in the output of a transaction has
  \<^verbatim>\<open>replacesStatements\<close>, and every identifier in it is the statementID of a statement
  in the full candidate set of the transaction just before (of none, for the first
  transaction).
\<close>

theorem replacement_locality:
  assumes "run e (kedudukan data) initial (data_transaksi data) = Some steps"
    and "n < length steps" and "s \<in> set (fst (steps ! n))"
  shows "\<exists>r. replacesStatements s = Some r
           \<and> set r \<subseteq> statementID `
                 set (if n = 0 then [] else prevTransactionStatements (snd (steps ! (n - 1))))"
proof -
  obtain new st' where sn: "steps ! n = (new, st')" by (cases "steps ! n") auto
  from run_nth[OF assms(1,2)] sn have
    "transaction_step e (kedudukan data) (if n = 0 then initial else snd (steps ! (n - 1)))
       (data_transaksi data ! n) = Some (new, st')" by simp
  from step_emitted[OF this] assms(3) sn show ?thesis
    by (cases "n = 0") (simp_all add: initial_def)
qed

text \<open>
  Claim C4. When the generated identifiers differ from each other and from every
  content-derived identifier, no statementID occurs twice in what \<open>statements\<close>
  returns. A candidate whose statementID is in the set of seen identifiers is only
  pushed to \<^verbatim>\<open>transactionStatements\<close>, as it is: it is not pushed to
  \<^verbatim>\<open>newStatements\<close>, and the result of the replacement computation is not looked at
  (whatever \<open>replaced\<close> is, even a \<^verbatim>\<open>TypeError\<close>).
\<close>

theorem global_uniqueness:
  assumes "inj (uuidv4 e)" and "\<forall>k d. uuidv4 e k \<noteq> statementID_hash e d"
    and "statements e data = Some (out, h)"
  shows "distinct (map statementID out)
         \<and> (\<forall>s replaced w. statementID s \<in> seenStatementIds w \<longrightarrow>
               push_candidate s replaced w
                 = Some (s, w\<lparr>transactionStatements := transactionStatements w @ [s]\<rparr>))"
proof -
  from assms(3) obtain steps where
    r: "run e (kedudukan data) initial (data_transaksi data) = Some steps"
    and out: "out = concat (map fst steps)"
    by (auto simp: statements_def split: option.splits)
  from run_distinct[OF assms(1,2) r] out have "distinct (map statementID out)" by simp
  then show ?thesis by (simp add: push_candidate_def)
qed

text \<open>
  Claim C9. The candidate at position \<open>j\<close> of a transaction gets
  \<^verbatim>\<open>replacesStatements\<close> exactly when its statementID was neither seen before the
  transaction nor carried by an earlier candidate of the same transaction; so of two
  candidates of one transaction with the same statementID the second gets none. The
  output of the transaction is the candidates that got \<^verbatim>\<open>replacesStatements\<close>, in
  order, followed by closing statements, and the identifiers seen after the transaction are
  those seen before and those of its candidates.
\<close>

theorem dedup_within_transaction:
  assumes "run e (kedudukan data) initial (data_transaksi data) = Some steps"
    and "n < length steps"
  shows "(\<forall>j < length (prevTransactionStatements (snd (steps ! n))).
            (replacesStatements (prevTransactionStatements (snd (steps ! n)) ! j) \<noteq> None)
            = (statementID (prevTransactionStatements (snd (steps ! n)) ! j)
                 \<notin> seen (if n = 0 then initial else snd (steps ! (n - 1)))
                   \<union> statementID ` set (take j (prevTransactionStatements (snd (steps ! n))))))
         \<and> (\<forall>i j. i < j \<and> j < length (prevTransactionStatements (snd (steps ! n)))
                \<and> statementID (prevTransactionStatements (snd (steps ! n)) ! i)
                    = statementID (prevTransactionStatements (snd (steps ! n)) ! j)
              \<longrightarrow> replacesStatements (prevTransactionStatements (snd (steps ! n)) ! j) = None)
         \<and> (\<exists>closing. fst (steps ! n)
               = filter (\<lambda>s. replacesStatements s \<noteq> None)
                   (prevTransactionStatements (snd (steps ! n))) @ closing
               \<and> (\<forall>c \<in> set closing. \<exists>k ps. c = closing_of e (k, ps)))
         \<and> seen (snd (steps ! n))
             = seen (if n = 0 then initial else snd (steps ! (n - 1)))
               \<union> statementID ` set (prevTransactionStatements (snd (steps ! n)))"
proof -
  let ?st = "if n = 0 then initial else snd (steps ! (n - 1))"
  obtain new st' where sn: "steps ! n = (new, st')" by (cases "steps ! n") auto
  from run_nth[OF assms] sn have
    "transaction_step e (kedudukan data) ?st (data_transaksi data ! n) = Some (new, st')"
    by simp
  from step_candidates[OF this] obtain w where
    all: "candidates e (kedudukan data) ?st (data_transaksi data ! n) = Some w
           \<and> prevTransactionStatements st' = transactionStatements w
           \<and> seen st' = seen ?st \<union> statementID ` set (transactionStatements w)
           \<and> newStatements w
               = filter (\<lambda>s. replacesStatements s \<noteq> None) (transactionStatements w)
           \<and> new = newStatements w
                 @ map (closing_of e)
                     (enumerate (closings ?st)
                        (ended (transactionStatements w) (prevTransactionStatements ?st)))
           \<and> closings st' = closings ?st
                 + length (ended (transactionStatements w) (prevTransactionStatements ?st))
           \<and> (\<forall>j < length (transactionStatements w).
                (replacesStatements (transactionStatements w ! j) \<noteq> None)
                = (statementID (transactionStatements w ! j)
                     \<notin> seen ?st \<union> statementID ` set (take j (transactionStatements w))))"
    ..
  then have w: "prevTransactionStatements st' = transactionStatements w"
      "seen st' = seen ?st \<union> statementID ` set (transactionStatements w)"
      "newStatements w
               = filter (\<lambda>s. replacesStatements s \<noteq> None) (transactionStatements w)"
      "new = newStatements w
                 @ map (closing_of e)
                     (enumerate (closings ?st)
                        (ended (transactionStatements w) (prevTransactionStatements ?st)))"
    and first: "\<forall>j < length (transactionStatements w).
                (replacesStatements (transactionStatements w ! j) \<noteq> None)
                = (statementID (transactionStatements w ! j)
                     \<notin> seen ?st \<union> statementID ` set (take j (transactionStatements w)))"
    by simp_all
  let ?c = "transactionStatements w"
  have second: "replacesStatements (?c ! j) = None"
    if "i < j" "j < length ?c" "statementID (?c ! i) = statementID (?c ! j)" for i j
  proof -
    from that have "?c ! i \<in> set (take j ?c)"
      by (metis in_set_conv_nth length_take min.absorb2 less_imp_le nth_take)
    then have "statementID (?c ! j) \<in> statementID ` set (take j ?c)"
      using that(3) by (metis imageI)
    with first that(2) show ?thesis by blast
  qed
  have closing: "\<forall>c \<in> set (map (closing_of e)
                     (enumerate (closings ?st)
                        (ended (transactionStatements w) (prevTransactionStatements ?st)))).
      \<exists>k ps. c = closing_of e (k, ps)"
    by auto
  show ?thesis
    unfolding sn fst_conv snd_conv w(1) w(2)
    using first second closing w(3,4) by blast
qed

text \<open>
  Claim C10. The state a transaction leaves is that of its candidate pass, which
  makes no closing statement and does not depend on \<^verbatim>\<open>uuidv4\<close> or the clock: the
  previous statements of the next transaction are the candidates (the company, then a
  person and an ownership statement for each owner record), and the identifiers seen are
  those seen before and those of the candidates. The closing statements are only appended
  to the output.
\<close>

theorem closing_statements_not_carried:
  assumes "run e (kedudukan data) initial (data_transaksi data) = Some steps"
    and "n < length steps"
  shows "\<exists>w. candidates e (kedudukan data) (if n = 0 then initial else snd (steps ! (n - 1)))
               (data_transaksi data ! n) = Some w
           \<and> (\<forall>u d. candidates (e\<lparr>uuidv4 := u, today := d\<rparr>) (kedudukan data)
                        (if n = 0 then initial else snd (steps ! (n - 1)))
                        (data_transaksi data ! n) = Some w)
           \<and> prevTransactionStatements (snd (steps ! n)) = transactionStatements w
           \<and> seen (snd (steps ! n))
               = seen (if n = 0 then initial else snd (steps ! (n - 1)))
                 \<union> statementID ` set (transactionStatements w)
           \<and> map statementType (transactionStatements w)
               = EntityStatement
                 # concat (map (\<lambda>bo. [PersonStatement, OwnershipOrControlStatement])
                            (data_bo (data_transaksi data ! n)))
           \<and> fst (steps ! n)
               = newStatements w
                 @ map (closing_of e)
                     (enumerate (closings (if n = 0 then initial else snd (steps ! (n - 1))))
                        (ended (transactionStatements w)
                           (prevTransactionStatements
                              (if n = 0 then initial else snd (steps ! (n - 1))))))"
proof -
  let ?st = "if n = 0 then initial else snd (steps ! (n - 1))"
  obtain new st' where sn: "steps ! n = (new, st')" by (cases "steps ! n") auto
  from run_nth[OF assms] sn have
    "transaction_step e (kedudukan data) ?st (data_transaksi data ! n) = Some (new, st')"
    by simp
  from step_candidates[OF this] obtain w where
    all: "candidates e (kedudukan data) ?st (data_transaksi data ! n) = Some w
           \<and> prevTransactionStatements st' = transactionStatements w
           \<and> seen st' = seen ?st \<union> statementID ` set (transactionStatements w)
           \<and> newStatements w
               = filter (\<lambda>s. replacesStatements s \<noteq> None) (transactionStatements w)
           \<and> new = newStatements w
                 @ map (closing_of e)
                     (enumerate (closings ?st)
                        (ended (transactionStatements w) (prevTransactionStatements ?st)))
           \<and> closings st' = closings ?st
                 + length (ended (transactionStatements w) (prevTransactionStatements ?st))
           \<and> (\<forall>j < length (transactionStatements w).
                (replacesStatements (transactionStatements w ! j) \<noteq> None)
                = (statementID (transactionStatements w ! j)
                     \<notin> seen ?st \<union> statementID ` set (take j (transactionStatements w))))"
    ..
  then have c: "candidates e (kedudukan data) ?st (data_transaksi data ! n) = Some w"
    by simp
  have "\<forall>u d. candidates (e\<lparr>uuidv4 := u, today := d\<rparr>) (kedudukan data) ?st
                        (data_transaksi data ! n) = Some w"
    using c by (simp only: candidates_env) simp
  with all candidates_Some(2)[OF c] sn show ?thesis
    by (intro exI[of _ w]) simp
qed

text \<open>
  Claim C7, as the code has it. A transaction whose company name, owner records and
  source data (the transaction without \<^verbatim>\<open>data_bo\<close>, \<^verbatim>\<open>nama_korporasi\<close> and
  \<^verbatim>\<open>jenis_transaksi\<close>) equal those of the transaction before it returns no statement.
\<close>

theorem identical_transaction_emits_nothing:
  assumes "run e (kedudukan data) initial (data_transaksi data) = Some steps"
    and "Suc n < length steps"
    and "get_prop (props (data_transaksi data ! Suc n)) ''nama_korporasi''
           = get_prop (props (data_transaksi data ! n)) ''nama_korporasi''"
    and "sourceData_of (data_transaksi data ! Suc n) = sourceData_of (data_transaksi data ! n)"
    and "data_bo (data_transaksi data ! Suc n) = data_bo (data_transaksi data ! n)"
  shows "fst (steps ! Suc n) = []"
proof -
  from assms(2) have n: "n < length steps" by simp
  obtain new st' where sn: "steps ! n = (new, st')" by (cases "steps ! n") auto
  obtain new' st'' where sn': "steps ! Suc n = (new', st'')" by (cases "steps ! Suc n") auto
  from run_nth[OF assms(1) n] sn have s1:
    "transaction_step e (kedudukan data) (if n = 0 then initial else snd (steps ! (n - 1)))
       (data_transaksi data ! n) = Some (new, st')" by simp
  from run_nth[OF assms(1,2)] sn sn' have s2:
    "transaction_step e (kedudukan data) st' (data_transaksi data ! Suc n) = Some (new', st'')"
    by simp
  from step_repeated[OF s1 s2 assms(3,4,5)] sn' show ?thesis by simp
qed











section \<open>The program on the example documents\<close>

text \<open>
  The identifiers of the statements of the example documents, computed with XXH32, and
  the steps of the program on each document.
\<close>

lemmas xxh32_eval = xxh32_def xxh_avalanche_def xxh_round_def rotl32_def u32_def
  PRIME32_1_def PRIME32_2_def PRIME32_3_def PRIME32_4_def PRIME32_5_def Let_def

lemmas hash_eval = statementID_hash_def reference_env_def xxh32_eval quote_def escape_char_def
  digits.simps digit_def show_int_def

lemmas model_eval = run.simps transaction_step_def candidates_def sourceData_of_def
  delete_prop_def get_prop_def mapCompanyStatement_def companyIdentifier_def
  mapPersonStatement_def mapOwnershipOrControlStatement_def push_candidate_def
  owner_callback_def replacedStatements_def replacedOwnershipStatements_def
  matchingIdentifiers_def not_covered_def close_statement_def initial_def Let_def

lemma reference_env_simps:
  "uuidv4 reference_env k = ''1b9d6bcd-bbfd-4b2d-9b5d-ab8dfbbd4bed'' @ replicate k (CHR ''0'')"
  "today reference_env k = ''2020-06-01''"
  by (simp_all add: reference_env_def)

lemma hash_company:
  "statementID_hash reference_env
     (JArr [JObj [(''nama_korporasi'', JStr ''PT X'')], JStr ''Jakarta''])
   = ''openownership-indonesia-164202880''"
  by (simp add: hash_eval)

lemma hash_person_1:
  "statementID_hash reference_env
     (JArr [JObj [(''nama_lengkap'', JStr ''A''), (''npwp'', JStr ''1'')], JObj
       [(''nomor_transaksi'', JStr ''1'')]])
   = ''openownership-indonesia-2492694057''"
  by (simp add: hash_eval)

lemma hash_ownership_1:
  "statementID_hash reference_env
     (JArr [JStr ''openownership-indonesia-164202880'', JStr
       ''openownership-indonesia-2492694057'',
            JObj [(''nama_lengkap'', JStr ''A''), (''npwp'', JStr ''1''), (''hubungan_bo'', JStr
              ''x'')],
            JObj [(''nomor_transaksi'', JStr ''1'')]])
   = ''openownership-indonesia-4147532560''"
  by (simp add: hash_eval)

lemma hash_person_2:
  "statementID_hash reference_env
     (JArr [JObj [(''nama_lengkap'', JStr ''A''), (''npwp'', JStr ''1'')], JObj
       [(''nomor_transaksi'', JStr ''2'')]])
   = ''openownership-indonesia-1240099067''"
  by (simp add: hash_eval)

lemma hash_ownership_2:
  "statementID_hash reference_env
     (JArr [JStr ''openownership-indonesia-164202880'', JStr
       ''openownership-indonesia-1240099067'',
            JObj [(''nama_lengkap'', JStr ''A''), (''npwp'', JStr ''1''), (''hubungan_bo'', JStr
              ''x'')],
            JObj [(''nomor_transaksi'', JStr ''2'')]])
   = ''openownership-indonesia-2587235988''"
  by (simp add: hash_eval)

lemmas hash_values = hash_company hash_person_1 hash_ownership_1 hash_person_2 hash_ownership_2

lemma steps_owner_removed:
  "reference_run owner_removed
   = [([\<lparr>statementID = ''openownership-indonesia-164202880'',
      statementType = EntityStatement, identifiers = Some [\<lparr>scheme = ''ID-KHH'',
      schemeName = JStr ''Ministry of Justice & Human Rights'', idval = JStr ''PT X''\<rparr>],
      subject = None, interestedParty = None, interests = None,
      replacesStatements = Some []\<rparr>,
      \<lparr>statementID = ''openownership-indonesia-2492694057'',
      statementType = PersonStatement, identifiers = Some [\<lparr>scheme = ''ID-DJP'',
      schemeName = JStr ''Director General of Taxes'', idval = JStr ''1''\<rparr>,
      \<lparr>scheme = ''MISC-ID-undefined'', schemeName = JUndefined,
      idval = JUndefined\<rparr>], subject = None, interestedParty = None, interests = None,
      replacesStatements = Some []\<rparr>,
      \<lparr>statementID = ''openownership-indonesia-4147532560'',
      statementType = OwnershipOrControlStatement, identifiers = None,
      subject = Some ''openownership-indonesia-164202880'',
      interestedParty = Some ''openownership-indonesia-2492694057'', interests = Some [0],
      replacesStatements = Some []\<rparr>],
      \<lparr>seen = {''openownership-indonesia-4147532560'',
      ''openownership-indonesia-2492694057'', ''openownership-indonesia-164202880''},
      prevTransactionStatements = [\<lparr>statementID = ''openownership-indonesia-164202880'',
      statementType = EntityStatement, identifiers = Some [\<lparr>scheme = ''ID-KHH'',
      schemeName = JStr ''Ministry of Justice & Human Rights'', idval = JStr ''PT X''\<rparr>],
      subject = None, interestedParty = None, interests = None,
      replacesStatements = Some []\<rparr>,
      \<lparr>statementID = ''openownership-indonesia-2492694057'',
      statementType = PersonStatement, identifiers = Some [\<lparr>scheme = ''ID-DJP'',
      schemeName = JStr ''Director General of Taxes'', idval = JStr ''1''\<rparr>,
      \<lparr>scheme = ''MISC-ID-undefined'', schemeName = JUndefined,
      idval = JUndefined\<rparr>], subject = None, interestedParty = None, interests = None,
      replacesStatements = Some []\<rparr>,
      \<lparr>statementID = ''openownership-indonesia-4147532560'',
      statementType = OwnershipOrControlStatement, identifiers = None,
      subject = Some ''openownership-indonesia-164202880'',
      interestedParty = Some ''openownership-indonesia-2492694057'', interests = Some [0],
      replacesStatements = Some []\<rparr>], objects = [\<lparr>details = JStr ''x'',
      endDate = None\<rparr>], closings = 0\<rparr>),
      ([\<lparr>statementID = ''1b9d6bcd-bbfd-4b2d-9b5d-ab8dfbbd4bed'',
      statementType = OwnershipOrControlStatement, identifiers = None,
      subject = Some ''openownership-indonesia-164202880'',
      interestedParty = Some ''openownership-indonesia-2492694057'', interests = Some [0],
      replacesStatements = Some [''openownership-indonesia-4147532560'']\<rparr>],
      \<lparr>seen = {''openownership-indonesia-4147532560'',
      ''openownership-indonesia-2492694057'', ''openownership-indonesia-164202880''},
      prevTransactionStatements = [\<lparr>statementID = ''openownership-indonesia-164202880'',
      statementType = EntityStatement, identifiers = Some [\<lparr>scheme = ''ID-KHH'',
      schemeName = JStr ''Ministry of Justice & Human Rights'', idval = JStr ''PT X''\<rparr>],
      subject = None, interestedParty = None, interests = None,
      replacesStatements = None\<rparr>], objects = [\<lparr>details = JStr ''x'',
      endDate = Some ''2020-06-01''\<rparr>], closings = 1\<rparr>)]"
  by (simp add: reference_run_def owner_removed_def model_eval hash_values reference_env_simps)

lemma run_owner_removed:
  "run reference_env (kedudukan owner_removed) initial (data_transaksi owner_removed) = Some
    (reference_run owner_removed)"
  by (simp add: reference_run_def owner_removed_def model_eval hash_values reference_env_simps)

lemma steps_transaction_renumbered:
  "reference_run transaction_renumbered
   = [([\<lparr>statementID = ''openownership-indonesia-164202880'',
      statementType = EntityStatement, identifiers = Some [\<lparr>scheme = ''ID-KHH'',
      schemeName = JStr ''Ministry of Justice & Human Rights'', idval = JStr ''PT X''\<rparr>],
      subject = None, interestedParty = None, interests = None,
      replacesStatements = Some []\<rparr>,
      \<lparr>statementID = ''openownership-indonesia-2492694057'',
      statementType = PersonStatement, identifiers = Some [\<lparr>scheme = ''ID-DJP'',
      schemeName = JStr ''Director General of Taxes'', idval = JStr ''1''\<rparr>,
      \<lparr>scheme = ''MISC-ID-undefined'', schemeName = JUndefined,
      idval = JUndefined\<rparr>], subject = None, interestedParty = None, interests = None,
      replacesStatements = Some []\<rparr>,
      \<lparr>statementID = ''openownership-indonesia-4147532560'',
      statementType = OwnershipOrControlStatement, identifiers = None,
      subject = Some ''openownership-indonesia-164202880'',
      interestedParty = Some ''openownership-indonesia-2492694057'', interests = Some [0],
      replacesStatements = Some []\<rparr>],
      \<lparr>seen = {''openownership-indonesia-4147532560'',
      ''openownership-indonesia-2492694057'', ''openownership-indonesia-164202880''},
      prevTransactionStatements = [\<lparr>statementID = ''openownership-indonesia-164202880'',
      statementType = EntityStatement, identifiers = Some [\<lparr>scheme = ''ID-KHH'',
      schemeName = JStr ''Ministry of Justice & Human Rights'', idval = JStr ''PT X''\<rparr>],
      subject = None, interestedParty = None, interests = None,
      replacesStatements = Some []\<rparr>,
      \<lparr>statementID = ''openownership-indonesia-2492694057'',
      statementType = PersonStatement, identifiers = Some [\<lparr>scheme = ''ID-DJP'',
      schemeName = JStr ''Director General of Taxes'', idval = JStr ''1''\<rparr>,
      \<lparr>scheme = ''MISC-ID-undefined'', schemeName = JUndefined,
      idval = JUndefined\<rparr>], subject = None, interestedParty = None, interests = None,
      replacesStatements = Some []\<rparr>,
      \<lparr>statementID = ''openownership-indonesia-4147532560'',
      statementType = OwnershipOrControlStatement, identifiers = None,
      subject = Some ''openownership-indonesia-164202880'',
      interestedParty = Some ''openownership-indonesia-2492694057'', interests = Some [0],
      replacesStatements = Some []\<rparr>], objects = [\<lparr>details = JStr ''x'',
      endDate = None\<rparr>], closings = 0\<rparr>),
      ([\<lparr>statementID = ''openownership-indonesia-1240099067'',
      statementType = PersonStatement, identifiers = Some [\<lparr>scheme = ''ID-DJP'',
      schemeName = JStr ''Director General of Taxes'', idval = JStr ''1''\<rparr>,
      \<lparr>scheme = ''MISC-ID-undefined'', schemeName = JUndefined,
      idval = JUndefined\<rparr>], subject = None, interestedParty = None, interests = None,
      replacesStatements = Some [''openownership-indonesia-2492694057'']\<rparr>,
      \<lparr>statementID = ''openownership-indonesia-2587235988'',
      statementType = OwnershipOrControlStatement, identifiers = None,
      subject = Some ''openownership-indonesia-164202880'',
      interestedParty = Some ''openownership-indonesia-1240099067'', interests = Some [1],
      replacesStatements = Some [''openownership-indonesia-4147532560'']\<rparr>],
      \<lparr>seen = {''openownership-indonesia-2587235988'',
      ''openownership-indonesia-1240099067'', ''openownership-indonesia-4147532560'',
      ''openownership-indonesia-2492694057'', ''openownership-indonesia-164202880''},
      prevTransactionStatements = [\<lparr>statementID = ''openownership-indonesia-164202880'',
      statementType = EntityStatement, identifiers = Some [\<lparr>scheme = ''ID-KHH'',
      schemeName = JStr ''Ministry of Justice & Human Rights'', idval = JStr ''PT X''\<rparr>],
      subject = None, interestedParty = None, interests = None,
      replacesStatements = None\<rparr>,
      \<lparr>statementID = ''openownership-indonesia-1240099067'',
      statementType = PersonStatement, identifiers = Some [\<lparr>scheme = ''ID-DJP'',
      schemeName = JStr ''Director General of Taxes'', idval = JStr ''1''\<rparr>,
      \<lparr>scheme = ''MISC-ID-undefined'', schemeName = JUndefined,
      idval = JUndefined\<rparr>], subject = None, interestedParty = None, interests = None,
      replacesStatements = Some [''openownership-indonesia-2492694057'']\<rparr>,
      \<lparr>statementID = ''openownership-indonesia-2587235988'',
      statementType = OwnershipOrControlStatement, identifiers = None,
      subject = Some ''openownership-indonesia-164202880'',
      interestedParty = Some ''openownership-indonesia-1240099067'', interests = Some [1],
      replacesStatements = Some [''openownership-indonesia-4147532560'']\<rparr>],
      objects = [\<lparr>details = JStr ''x'', endDate = None\<rparr>,
      \<lparr>details = JStr ''x'', endDate = None\<rparr>], closings = 0\<rparr>)]"
  by (simp add: reference_run_def transaction_renumbered_def model_eval hash_values
    reference_env_simps)

lemma run_transaction_renumbered:
  "run reference_env (kedudukan transaction_renumbered) initial (data_transaksi
    transaction_renumbered) = Some (reference_run transaction_renumbered)"
  by (simp add: reference_run_def transaction_renumbered_def model_eval hash_values
    reference_env_simps)

lemma steps_transaction_repeated:
  "reference_run transaction_repeated
   = [([\<lparr>statementID = ''openownership-indonesia-164202880'',
      statementType = EntityStatement, identifiers = Some [\<lparr>scheme = ''ID-KHH'',
      schemeName = JStr ''Ministry of Justice & Human Rights'', idval = JStr ''PT X''\<rparr>],
      subject = None, interestedParty = None, interests = None,
      replacesStatements = Some []\<rparr>,
      \<lparr>statementID = ''openownership-indonesia-2492694057'',
      statementType = PersonStatement, identifiers = Some [\<lparr>scheme = ''ID-DJP'',
      schemeName = JStr ''Director General of Taxes'', idval = JStr ''1''\<rparr>,
      \<lparr>scheme = ''MISC-ID-undefined'', schemeName = JUndefined,
      idval = JUndefined\<rparr>], subject = None, interestedParty = None, interests = None,
      replacesStatements = Some []\<rparr>,
      \<lparr>statementID = ''openownership-indonesia-4147532560'',
      statementType = OwnershipOrControlStatement, identifiers = None,
      subject = Some ''openownership-indonesia-164202880'',
      interestedParty = Some ''openownership-indonesia-2492694057'', interests = Some [0],
      replacesStatements = Some []\<rparr>],
      \<lparr>seen = {''openownership-indonesia-4147532560'',
      ''openownership-indonesia-2492694057'', ''openownership-indonesia-164202880''},
      prevTransactionStatements = [\<lparr>statementID = ''openownership-indonesia-164202880'',
      statementType = EntityStatement, identifiers = Some [\<lparr>scheme = ''ID-KHH'',
      schemeName = JStr ''Ministry of Justice & Human Rights'', idval = JStr ''PT X''\<rparr>],
      subject = None, interestedParty = None, interests = None,
      replacesStatements = Some []\<rparr>,
      \<lparr>statementID = ''openownership-indonesia-2492694057'',
      statementType = PersonStatement, identifiers = Some [\<lparr>scheme = ''ID-DJP'',
      schemeName = JStr ''Director General of Taxes'', idval = JStr ''1''\<rparr>,
      \<lparr>scheme = ''MISC-ID-undefined'', schemeName = JUndefined,
      idval = JUndefined\<rparr>], subject = None, interestedParty = None, interests = None,
      replacesStatements = Some []\<rparr>,
      \<lparr>statementID = ''openownership-indonesia-4147532560'',
      statementType = OwnershipOrControlStatement, identifiers = None,
      subject = Some ''openownership-indonesia-164202880'',
      interestedParty = Some ''openownership-indonesia-2492694057'', interests = Some [0],
      replacesStatements = Some []\<rparr>], objects = [\<lparr>details = JStr ''x'',
      endDate = None\<rparr>], closings = 0\<rparr>), ([],
      \<lparr>seen = {''openownership-indonesia-4147532560'',
      ''openownership-indonesia-2492694057'', ''openownership-indonesia-164202880''},
      prevTransactionStatements = [\<lparr>statementID = ''openownership-indonesia-164202880'',
      statementType = EntityStatement, identifiers = Some [\<lparr>scheme = ''ID-KHH'',
      schemeName = JStr ''Ministry of Justice & Human Rights'', idval = JStr ''PT X''\<rparr>],
      subject = None, interestedParty = None, interests = None,
      replacesStatements = None\<rparr>,
      \<lparr>statementID = ''openownership-indonesia-2492694057'',
      statementType = PersonStatement, identifiers = Some [\<lparr>scheme = ''ID-DJP'',
      schemeName = JStr ''Director General of Taxes'', idval = JStr ''1''\<rparr>,
      \<lparr>scheme = ''MISC-ID-undefined'', schemeName = JUndefined,
      idval = JUndefined\<rparr>], subject = None, interestedParty = None, interests = None,
      replacesStatements = None\<rparr>,
      \<lparr>statementID = ''openownership-indonesia-4147532560'',
      statementType = OwnershipOrControlStatement, identifiers = None,
      subject = Some ''openownership-indonesia-164202880'',
      interestedParty = Some ''openownership-indonesia-2492694057'', interests = Some [1],
      replacesStatements = None\<rparr>], objects = [\<lparr>details = JStr ''x'',
      endDate = None\<rparr>, \<lparr>details = JStr ''x'', endDate = None\<rparr>],
      closings = 0\<rparr>)]"
  by (simp add: reference_run_def transaction_repeated_def model_eval hash_values
    reference_env_simps)

lemma run_transaction_repeated:
  "run reference_env (kedudukan transaction_repeated) initial (data_transaksi
    transaction_repeated) = Some (reference_run transaction_repeated)"
  by (simp add: reference_run_def transaction_repeated_def model_eval hash_values
    reference_env_simps)

lemma steps_owner_listed_twice:
  "reference_run owner_listed_twice
   = [([\<lparr>statementID = ''openownership-indonesia-164202880'',
      statementType = EntityStatement, identifiers = Some [\<lparr>scheme = ''ID-KHH'',
      schemeName = JStr ''Ministry of Justice & Human Rights'', idval = JStr ''PT X''\<rparr>],
      subject = None, interestedParty = None, interests = None,
      replacesStatements = Some []\<rparr>,
      \<lparr>statementID = ''openownership-indonesia-2492694057'',
      statementType = PersonStatement, identifiers = Some [\<lparr>scheme = ''ID-DJP'',
      schemeName = JStr ''Director General of Taxes'', idval = JStr ''1''\<rparr>,
      \<lparr>scheme = ''MISC-ID-undefined'', schemeName = JUndefined,
      idval = JUndefined\<rparr>], subject = None, interestedParty = None, interests = None,
      replacesStatements = Some []\<rparr>,
      \<lparr>statementID = ''openownership-indonesia-4147532560'',
      statementType = OwnershipOrControlStatement, identifiers = None,
      subject = Some ''openownership-indonesia-164202880'',
      interestedParty = Some ''openownership-indonesia-2492694057'', interests = Some [0],
      replacesStatements = Some []\<rparr>],
      \<lparr>seen = {''openownership-indonesia-4147532560'',
      ''openownership-indonesia-2492694057'', ''openownership-indonesia-164202880''},
      prevTransactionStatements = [\<lparr>statementID = ''openownership-indonesia-164202880'',
      statementType = EntityStatement, identifiers = Some [\<lparr>scheme = ''ID-KHH'',
      schemeName = JStr ''Ministry of Justice & Human Rights'', idval = JStr ''PT X''\<rparr>],
      subject = None, interestedParty = None, interests = None,
      replacesStatements = Some []\<rparr>,
      \<lparr>statementID = ''openownership-indonesia-2492694057'',
      statementType = PersonStatement, identifiers = Some [\<lparr>scheme = ''ID-DJP'',
      schemeName = JStr ''Director General of Taxes'', idval = JStr ''1''\<rparr>,
      \<lparr>scheme = ''MISC-ID-undefined'', schemeName = JUndefined,
      idval = JUndefined\<rparr>], subject = None, interestedParty = None, interests = None,
      replacesStatements = Some []\<rparr>,
      \<lparr>statementID = ''openownership-indonesia-4147532560'',
      statementType = OwnershipOrControlStatement, identifiers = None,
      subject = Some ''openownership-indonesia-164202880'',
      interestedParty = Some ''openownership-indonesia-2492694057'', interests = Some [0],
      replacesStatements = Some []\<rparr>,
      \<lparr>statementID = ''openownership-indonesia-2492694057'',
      statementType = PersonStatement, identifiers = Some [\<lparr>scheme = ''ID-DJP'',
      schemeName = JStr ''Director General of Taxes'', idval = JStr ''1''\<rparr>,
      \<lparr>scheme = ''MISC-ID-undefined'', schemeName = JUndefined,
      idval = JUndefined\<rparr>], subject = None, interestedParty = None, interests = None,
      replacesStatements = None\<rparr>,
      \<lparr>statementID = ''openownership-indonesia-4147532560'',
      statementType = OwnershipOrControlStatement, identifiers = None,
      subject = Some ''openownership-indonesia-164202880'',
      interestedParty = Some ''openownership-indonesia-2492694057'', interests = Some [1],
      replacesStatements = None\<rparr>], objects = [\<lparr>details = JStr ''x'',
      endDate = None\<rparr>, \<lparr>details = JStr ''x'', endDate = None\<rparr>],
      closings = 0\<rparr>)]"
  by (simp add: reference_run_def owner_listed_twice_def model_eval hash_values
    reference_env_simps)

lemma run_owner_listed_twice:
  "run reference_env (kedudukan owner_listed_twice) initial (data_transaksi owner_listed_twice) =
    Some (reference_run owner_listed_twice)"
  by (simp add: reference_run_def owner_listed_twice_def model_eval hash_values
    reference_env_simps)

lemma reference_uuid_inj: "inj (uuidv4 reference_env)"
proof (rule injI)
  fix j k assume "uuidv4 reference_env j = uuidv4 reference_env k"
  then have "replicate j (CHR ''0'') = replicate k (CHR ''0'')"
    by (simp add: reference_env_simps)
  then have "length (replicate j (CHR ''0'')) = length (replicate k (CHR ''0''))"
    by (rule arg_cong)
  then show "j = k" by simp
qed

lemma reference_uuid_not_hashed:
  "\<forall>k d. uuidv4 reference_env k \<noteq> statementID_hash reference_env d"
  by (simp add: reference_env_simps statementID_hash_def)

text \<open>
  The theorems above at the example documents. When the only owner is missing from the
  second transaction, its ownership statement is closed.
\<close>

theorem no_silent_loss_witness:
  "(run reference_env (kedudukan owner_removed) initial (data_transaksi owner_removed) = Some
    (reference_run owner_removed)) \<and>
   (Suc 0 < length (reference_run owner_removed)) \<and>
   ((prevTransactionStatements (snd (reference_run owner_removed ! 0)) ! 2) \<in> set
     (prevTransactionStatements (snd ((reference_run owner_removed) ! 0)))) \<and>
   (statementType (prevTransactionStatements (snd (reference_run owner_removed ! 0)) ! 2) =
     OwnershipOrControlStatement) \<and>
   (statementID (prevTransactionStatements (snd (reference_run owner_removed ! 0)) ! 2) \<notin>
     statementID ` set (prevTransactionStatements (snd ((reference_run owner_removed) ! Suc 0))))
     \<and>
   ((\<exists>s \<in> set (fst ((reference_run owner_removed) ! Suc 0)). \<exists>r.
    s \<in> set (prevTransactionStatements (snd ((reference_run owner_removed) ! Suc 0)))
    \<and> replacesStatements s = Some r \<and> statementID (prevTransactionStatements (snd
      (reference_run owner_removed ! 0)) ! 2) \<in> set r)
    \<or> (\<exists>s \<in> set (fst ((reference_run owner_removed) ! Suc 0)). \<exists>k.
    s = (prevTransactionStatements (snd (reference_run owner_removed ! 0)) ! 2)\<lparr>statementID
      := uuidv4 reference_env k,
    replacesStatements := Some [statementID (prevTransactionStatements (snd (reference_run
      owner_removed ! 0)) ! 2)]\<rparr>))"
proof -
  have h1: "run reference_env (kedudukan owner_removed) initial (data_transaksi owner_removed) =
    Some (reference_run owner_removed)"
    and h2: "Suc 0 < length (reference_run owner_removed)"
    and h3: "(prevTransactionStatements (snd (reference_run owner_removed ! 0)) ! 2) \<in> set
      (prevTransactionStatements (snd ((reference_run owner_removed) ! 0)))"
    and h4: "statementType (prevTransactionStatements (snd (reference_run owner_removed ! 0)) ! 2)
      = OwnershipOrControlStatement"
    and h5: "statementID (prevTransactionStatements (snd (reference_run owner_removed ! 0)) ! 2)
      \<notin> statementID ` set (prevTransactionStatements (snd ((reference_run owner_removed) !
      Suc 0)))"
    by (simp_all add: run_owner_removed steps_owner_removed)
  show ?thesis
    by (rule conjI[OF h1 conjI[OF h2 conjI[OF h3 conjI[OF h4 conjI[OF h5 no_silent_loss[where e =
      reference_env and data = owner_removed, OF h1 h2 h3 h4 h5]]]]]])
qed

text \<open>
  When the transaction number changes, the new person statement replaces the person
  statement of the transaction before.
\<close>

theorem replacement_locality_witness:
  "(run reference_env (kedudukan transaction_renumbered) initial (data_transaksi
    transaction_renumbered) = Some (reference_run transaction_renumbered)) \<and>
   ((1::nat) < length (reference_run transaction_renumbered)) \<and>
   ((fst (reference_run transaction_renumbered ! 1) ! 0) \<in> set (fst ((reference_run
     transaction_renumbered) ! (1::nat)))) \<and>
   (\<exists>r. replacesStatements (fst (reference_run transaction_renumbered ! 1) ! 0) = Some r
    \<and> set r \<subseteq> statementID `
    set (if (1::nat) = 0 then [] else prevTransactionStatements (snd ((reference_run
      transaction_renumbered) ! ((1::nat) - 1)))))"
proof -
  have h1: "run reference_env (kedudukan transaction_renumbered) initial (data_transaksi
    transaction_renumbered) = Some (reference_run transaction_renumbered)"
    and h2: "(1::nat) < length (reference_run transaction_renumbered)"
    and h3: "(fst (reference_run transaction_renumbered ! 1) ! 0) \<in> set (fst ((reference_run
      transaction_renumbered) ! (1::nat)))"
    by (simp_all add: run_transaction_renumbered steps_transaction_renumbered)
  show ?thesis
    by (rule conjI[OF h1 conjI[OF h2 conjI[OF h3 replacement_locality[where e = reference_env and
      data = transaction_renumbered, OF h1 h2 h3]]]])
qed

text \<open>
  When an owner record is listed twice, the second person statement (position 3) has the
  statementID of the first (position 1) and gets no \<^verbatim>\<open>replacesStatements\<close>.
\<close>

theorem dedup_within_transaction_witness:
  "run reference_env (kedudukan owner_listed_twice) initial (data_transaksi owner_listed_twice)
     = Some (reference_run owner_listed_twice) \<and>
   (0::nat) < length (reference_run owner_listed_twice) \<and>
   statementID (prevTransactionStatements (snd (reference_run owner_listed_twice ! 0)) ! 1)
     = statementID (prevTransactionStatements (snd (reference_run owner_listed_twice ! 0)) ! 3)
       \<and>
   replacesStatements (prevTransactionStatements (snd (reference_run owner_listed_twice ! 0)) ! 1)
     = Some [] \<and>
   replacesStatements (prevTransactionStatements (snd (reference_run owner_listed_twice ! 0)) ! 3)
     = None \<and>
   seen (snd (reference_run owner_listed_twice ! 0))
     = seen (if (0::nat) = 0 then initial else snd (reference_run owner_listed_twice ! (0 - 1)))
       \<union> statementID ` set (prevTransactionStatements (snd (reference_run
         owner_listed_twice ! 0)))"
proof -
  have h1: "run reference_env (kedudukan owner_listed_twice) initial
              (data_transaksi owner_listed_twice) = Some (reference_run owner_listed_twice)"
    and h2: "(0::nat) < length (reference_run owner_listed_twice)"
    and same: "statementID (prevTransactionStatements (snd (reference_run owner_listed_twice ! 0))
      ! 1)
                = statementID (prevTransactionStatements (snd (reference_run owner_listed_twice !
                  0)) ! 3)"
    and first: "replacesStatements (prevTransactionStatements (snd (reference_run
      owner_listed_twice ! 0)) ! 1) = Some []"
    and pos: "(1::nat) < 3" "3 < length (prevTransactionStatements (snd (reference_run
      owner_listed_twice ! 0)))"
    by (simp_all add: run_owner_listed_twice steps_owner_listed_twice)
  note c = dedup_within_transaction[where e = reference_env and data = owner_listed_twice,
      OF h1 h2]
  note second = c[THEN conjunct2, THEN conjunct1, rule_format, of 1 3,
      OF conjI[OF pos(1) conjI[OF pos(2) same]]]
  note seen_after = c[THEN conjunct2, THEN conjunct2, THEN conjunct2]
  show ?thesis
    by (rule conjI[OF h1 conjI[OF h2 conjI[OF same conjI[OF first conjI[OF second seen_after]]]]])
qed

text \<open>The state after the transaction that closes the ownership statement.\<close>

theorem closing_statements_not_carried_witness:
  "(run reference_env (kedudukan owner_removed) initial (data_transaksi owner_removed) = Some
    (reference_run owner_removed)) \<and>
   ((1::nat) < length (reference_run owner_removed)) \<and>
   (\<exists>w. candidates reference_env (kedudukan owner_removed) (if (1::nat) = 0 then initial
     else snd ((reference_run owner_removed) ! ((1::nat) - 1)))
    (data_transaksi owner_removed ! (1::nat)) = Some w
    \<and> (\<forall>u d. candidates (reference_env\<lparr>uuidv4 := u, today := d\<rparr>)
      (kedudukan owner_removed)
    (if (1::nat) = 0 then initial else snd ((reference_run owner_removed) ! ((1::nat) - 1)))
    (data_transaksi owner_removed ! (1::nat)) = Some w)
    \<and> prevTransactionStatements (snd ((reference_run owner_removed) ! (1::nat))) =
      transactionStatements w
    \<and> seen (snd ((reference_run owner_removed) ! (1::nat)))
    = seen (if (1::nat) = 0 then initial else snd ((reference_run owner_removed) ! ((1::nat) -
      1)))
    \<union> statementID ` set (transactionStatements w)
    \<and> map statementType (transactionStatements w)
    = EntityStatement
    # concat (map (\<lambda>bo. [PersonStatement, OwnershipOrControlStatement])
    (data_bo (data_transaksi owner_removed ! (1::nat))))
    \<and> fst ((reference_run owner_removed) ! (1::nat))
    = newStatements w
    @ map (closing_of reference_env)
    (enumerate (closings (if (1::nat) = 0 then initial else snd ((reference_run owner_removed) !
      ((1::nat) - 1))))
    (ended (transactionStatements w)
    (prevTransactionStatements
    (if (1::nat) = 0 then initial else snd ((reference_run owner_removed) ! ((1::nat) - 1)))))))"
proof -
  have h1: "run reference_env (kedudukan owner_removed) initial (data_transaksi owner_removed) =
    Some (reference_run owner_removed)"
    and h2: "(1::nat) < length (reference_run owner_removed)"
    by (simp_all add: run_owner_removed steps_owner_removed)
  show ?thesis
    by (rule conjI[OF h1 conjI[OF h2 closing_statements_not_carried[where e = reference_env and
      data = owner_removed, OF h1 h2]]])
qed

text \<open>A repeated transaction returns nothing.\<close>

theorem identical_transaction_emits_nothing_witness:
  "(run reference_env (kedudukan transaction_repeated) initial (data_transaksi
    transaction_repeated) = Some (reference_run transaction_repeated)) \<and>
   (Suc 0 < length (reference_run transaction_repeated)) \<and>
   (get_prop (props (data_transaksi transaction_repeated ! Suc 0)) ''nama_korporasi''
    = get_prop (props (data_transaksi transaction_repeated ! 0)) ''nama_korporasi'') \<and>
   (sourceData_of (data_transaksi transaction_repeated ! Suc 0) = sourceData_of (data_transaksi
     transaction_repeated ! 0)) \<and>
   (data_bo (data_transaksi transaction_repeated ! Suc 0) = data_bo (data_transaksi
     transaction_repeated ! 0)) \<and>
   (fst ((reference_run transaction_repeated) ! Suc 0) = [])"
proof -
  have h1: "run reference_env (kedudukan transaction_repeated) initial (data_transaksi
    transaction_repeated) = Some (reference_run transaction_repeated)"
    and h2: "Suc 0 < length (reference_run transaction_repeated)"
    by (simp_all add: run_transaction_repeated steps_transaction_repeated)
  have h3: "get_prop (props (data_transaksi transaction_repeated ! Suc 0)) ''nama_korporasi''
      = get_prop (props (data_transaksi transaction_repeated ! 0)) ''nama_korporasi''"
    and h4: "sourceData_of (data_transaksi transaction_repeated ! Suc 0) = sourceData_of
      (data_transaksi transaction_repeated ! 0)"
    and h5: "data_bo (data_transaksi transaction_repeated ! Suc 0) = data_bo (data_transaksi
      transaction_repeated ! 0)"
    by (simp_all add: transaction_repeated_def sourceData_of_def delete_prop_def get_prop_def)
  show ?thesis
    by (rule conjI[OF h1 conjI[OF h2 conjI[OF h3 conjI[OF h4 conjI[OF h5
      identical_transaction_emits_nothing[where e = reference_env and data = transaction_repeated,
      OF h1 h2 h3 h4 h5]]]]]])
qed

text \<open>The four statements returned for the document with the removed owner.\<close>

theorem global_uniqueness_witness:
  "inj (uuidv4 reference_env) \<and>
   (\<forall>k d. uuidv4 reference_env k \<noteq> statementID_hash reference_env d) \<and>
   statements reference_env owner_removed
     = Some (concat (map fst (reference_run owner_removed)),
             objects (snd (last (reference_run owner_removed)))) \<and>
   distinct (map statementID (concat (map fst (reference_run owner_removed))))"
proof -
  have h3: "statements reference_env owner_removed
     = Some (concat (map fst (reference_run owner_removed)),
             objects (snd (last (reference_run owner_removed))))"
    by (simp add: statements_def run_owner_removed steps_owner_removed)
  note c = global_uniqueness[OF reference_uuid_inj reference_uuid_not_hashed h3]
  show ?thesis
    by (rule conjI[OF reference_uuid_inj conjI[OF reference_uuid_not_hashed
          conjI[OF h3 c[THEN conjunct1]]]])
qed

text \<open>
  Claim C7 as stated fails: the two transactions have the same company name and
  location and the same owner record and differ in \<^verbatim>\<open>nomor_transaksi\<close> only, and
  the second transaction returns a new person statement and a new ownership statement.
\<close>

theorem renumbered_transaction_counterexample:
  "map_option (\<lambda>steps. map statementID (fst (steps ! 1)))
     (run reference_env (kedudukan transaction_renumbered) initial (data_transaksi
       transaction_renumbered))
   = Some [''openownership-indonesia-1240099067'', ''openownership-indonesia-2587235988'']"
  by (simp add: run_transaction_renumbered steps_transaction_renumbered)

text \<open>
  Claim C3 at the document whose second transaction has lost the owner. The closing
  statement (position 3 of the output) holds the interest object of the ownership
  statement it was copied from (position 2, returned for the first transaction), so the
  end date written through the copy shows in both.
\<close>

theorem closing_statement_shares_interests:
  "map_option
     (\<lambda>(out, h). (map statementID out, interests_in h (out ! 2), interests_in h (out !
       3)))
     (statements reference_env owner_removed)
   = Some ([''openownership-indonesia-164202880'', ''openownership-indonesia-2492694057'',
            ''openownership-indonesia-4147532560'', ''1b9d6bcd-bbfd-4b2d-9b5d-ab8dfbbd4bed''],
           Some [\<lparr>details = JStr ''x'', endDate = Some ''2020-06-01''\<rparr>],
           Some [\<lparr>details = JStr ''x'', endDate = Some ''2020-06-01''\<rparr>])"
  by (simp add: statements_def run_owner_removed steps_owner_removed interests_in_def)

end
